theory Spec2Isabelle
  imports Main "HOL-Library.Sublist"
begin

section \<open>The OpenCL runtime as seen from \<open>opencl_queue.h\<close>\<close>

text \<open>
  \<open>opencl_queue.h\<close> drives the OpenCL C++ bindings (\<open>CL/cl.hpp\<close>, compiled with
  \<open>__CL_ENABLE_EXCEPTIONS\<close>). The bindings are not part of the repository, so the runtime
  is a parameter of the model: every call the header makes is recorded, in order, in a
  trace, and an oracle decides from the calls made so far whether the call throws
  \<open>cl::Error\<close>. Handles returned by the runtime are numbered from a counter.
\<close>

datatype cl_program = Program nat
datatype cl_kernel = Kernel nat
datatype cl_buffer = Buffer nat
datatype cl_event = Event nat

datatype cl_mem_flag =
  CL_MEM_READ_ONLY | CL_MEM_WRITE_ONLY | CL_MEM_READ_WRITE | CL_MEM_COPY_HOST_PTR

text \<open>
  What \<open>cl::Kernel::setArg\<close> receives: a buffer, \<open>cl::Local(size)\<close>, or the scalar
  \<open>*host_ptr\<close> (kept symbolic: the value stored at that host address at the time of the call).
\<close>

datatype kernel_arg = ArgBuffer cl_buffer | ArgLocal nat | ArgDeref nat

type_synonym NDRange = "nat list"

text \<open>
  The calls, each with its operands as the header passes them and, for a call that
  creates an object, the handle it yields:
  \<^item> \<open>CreateProgram src len p\<close>: \<open>cl::Program(context_, Sources(1, (src, len)))\<close>;
  \<^item> \<open>BuildProgram p options\<close>: \<open>p.build({device}, options)\<close>;
  \<^item> \<open>GetBuildLog p\<close>: \<open>p.getBuildInfo<CL_PROGRAM_BUILD_LOG>(device)\<close>;
  \<^item> \<open>CreateKernel p name k\<close>: \<open>cl::Kernel(p, name)\<close>;
  \<^item> \<open>CreateBuffer flags size host b\<close>: \<open>cl::Buffer(context_, flags, size, host)\<close>;
  \<^item> \<open>SetArg k index arg\<close>: \<open>k.setArg(index, arg)\<close>;
  \<^item> \<open>EnqueueNDRangeKernel k offset global local ev\<close>;
  \<^item> \<open>EnqueueReadBuffer b blocking offset size host ev\<close>;
  \<^item> \<open>WaitEvent ev\<close>: \<open>ev.wait()\<close>.
\<close>

datatype rt_call =
    CreateProgram string nat cl_program
  | BuildProgram cl_program string
  | GetBuildLog cl_program
  | CreateKernel cl_program string cl_kernel
  | CreateBuffer "cl_mem_flag list" nat "nat option" cl_buffer
  | SetArg cl_kernel nat kernel_arg
  | EnqueueNDRangeKernel cl_kernel NDRange NDRange NDRange cl_event
  | EnqueueReadBuffer cl_buffer bool nat nat nat cl_event
  | WaitEvent cl_event

text \<open>\<open>cl::Error\<close>: the status code \<open>err()\<close> and the text \<open>what()\<close>.\<close>

datatype cl_Error = Error int string

record runtime =
  rt_fails :: "rt_call list \<Rightarrow> rt_call \<Rightarrow> cl_Error option"
  rt_build_log :: "rt_call list \<Rightarrow> cl_program \<Rightarrow> string"

text \<open>
  Everything outside the queue object that a submission changes: the calls made on the
  runtime, the text written to \<open>std::cout\<close>, and the next unused handle number.
\<close>

record world =
  trace :: "rt_call list"
  cout :: string
  next_id :: nat

text \<open>
  What ends a submission without a future: a \<open>cl::Error\<close> thrown by the runtime, a
  \<open>std::ios_base::failure\<close> thrown while the program source is read, or an index past the
  end of a \<open>std::vector\<close> (undefined behaviour in C++, made a failure here).
\<close>

datatype error = ClError cl_Error | IosFailure | VectorOutOfRange

definition rt_do :: "runtime \<Rightarrow> rt_call \<Rightarrow> world \<Rightarrow> cl_Error option \<times> world" where
  "rt_do rt c w = (rt_fails rt (trace w) c, w\<lparr>trace := trace w @ [c]\<rparr>)"

definition fresh :: "world \<Rightarrow> world" where
  "fresh w = w\<lparr>next_id := Suc (next_id w)\<rparr>"

definition endl :: string where
  "endl = [CHR 0x0A]"

section \<open>Argument descriptors and futures\<close>

datatype DataType = IN | OUT | IN_OUT | LOCALE | VAR

text \<open>
  \<open>cl_data_t<T, DT>\<close>: the host pointer (an address), the byte size, and the direction tag,
  which the source fixes as a template parameter.
\<close>

record cl_data_t =
  host_ptr :: nat
  size' :: nat
  io_type :: DataType

text \<open>
  \<open>cl_future<T>\<close>; the output tuple is the list of its components. The members are
  \<open>event_\<close>, \<open>buffers_\<close> and \<open>out_val_\<close> in the source.
\<close>

record cl_future =
  event' :: cl_event
  buffers' :: "cl_buffer list"
  out_val' :: "cl_data_t list"



definition ReturnOutData :: "cl_data_t \<Rightarrow> cl_data_t list" where
  "ReturnOutData data =
     (if io_type data \<noteq> OUT \<and> io_type data \<noteq> IN_OUT then [] else [data])"

text \<open>\<open>ComposeOutTuple(data, args...)\<close>; \<open>std::tuple_cat\<close> is list append.\<close>

fun ComposeOutTuple :: "cl_data_t \<Rightarrow> cl_data_t list \<Rightarrow> cl_data_t list" where
  "ComposeOutTuple data [] = ReturnOutData data"
| "ComposeOutTuple data (a # args) = ReturnOutData data @ ComposeOutTuple a args"

section \<open>The queue\<close>

text \<open>
  Of \<open>OpenCLQueue\<close> only the two caches change after construction (\<open>programs_\<close> and
  \<open>kernels_\<close> in the source); the context, the command queue and the selected device are
  fixed and are left implicit in the calls.
\<close>

record OpenCLQueue =
  programs :: "string \<rightharpoonup> cl_program"
  kernels :: "string \<rightharpoonup> cl_kernel"

subsection \<open>Binding the arguments\<close>

text \<open>
  The three buffer cases of \<open>SetKernelArgs\<close> share their statements: construct the
  buffer, \<open>buffers->push_back(buffer)\<close>, \<open>kernel->setArg(argIndex, buffer)\<close>.
\<close>

definition bind_buffer ::
  "runtime \<Rightarrow> nat \<Rightarrow> cl_kernel \<Rightarrow> cl_buffer list \<Rightarrow> cl_mem_flag list \<Rightarrow> nat \<Rightarrow> nat option
     \<Rightarrow> world \<Rightarrow> error option \<times> cl_buffer list \<times> world" where
  "bind_buffer rt argIndex kernel' buffers flags sz host w =
     (let buffer = Buffer (next_id w) in
      case rt_do rt (CreateBuffer flags sz host buffer) w of
        (Some e, w1) \<Rightarrow> (Some (ClError e), buffers, w1)
      | (None, w1) \<Rightarrow>
          (case rt_do rt (SetArg kernel' argIndex (ArgBuffer buffer)) (fresh w1) of
             (Some e, w2) \<Rightarrow> (Some (ClError e), buffers @ [buffer], w2)
           | (None, w2) \<Rightarrow> (None, buffers @ [buffer], w2)))"

text \<open>The overload of \<open>SetKernelArgs\<close> for one descriptor (lines 239 to 269).\<close>

definition SetKernelArgs1 ::
  "runtime \<Rightarrow> nat \<Rightarrow> cl_kernel \<Rightarrow> cl_buffer list \<Rightarrow> cl_data_t
     \<Rightarrow> world \<Rightarrow> error option \<times> cl_buffer list \<times> world" where
  "SetKernelArgs1 rt argIndex kernel' buffers clData w =
     (case io_type clData of
        IN \<Rightarrow> bind_buffer rt argIndex kernel' buffers
                [CL_MEM_READ_ONLY, CL_MEM_COPY_HOST_PTR] (size' clData) (Some (host_ptr clData)) w
      | IN_OUT \<Rightarrow> bind_buffer rt argIndex kernel' buffers
                [CL_MEM_READ_WRITE, CL_MEM_COPY_HOST_PTR] (size' clData) (Some (host_ptr clData)) w
      | OUT \<Rightarrow> bind_buffer rt argIndex kernel' buffers
                [CL_MEM_WRITE_ONLY] (size' clData) None w
      | LOCALE \<Rightarrow>
          (case rt_do rt (SetArg kernel' argIndex (ArgLocal (size' clData))) w of
             (Some e, w1) \<Rightarrow> (Some (ClError e), buffers, w1)
           | (None, w1) \<Rightarrow> (None, buffers, w1))
      | VAR \<Rightarrow>
          (case rt_do rt (SetArg kernel' argIndex (ArgDeref (host_ptr clData))) w of
             (Some e, w1) \<Rightarrow> (Some (ClError e), buffers, w1)
           | (None, w1) \<Rightarrow> (None, buffers, w1)))"

text \<open>
  The variadic overload (lines 230 to 237): the first descriptor, then the rest with
  \<open>++argIndex\<close>. The index is a \<open>uint32_t\<close>; a parameter pack is far shorter than
  \<open>2^32\<close>, so it is a natural number here.
\<close>

fun SetKernelArgs ::
  "runtime \<Rightarrow> nat \<Rightarrow> cl_kernel \<Rightarrow> cl_buffer list \<Rightarrow> cl_data_t \<Rightarrow> cl_data_t list
     \<Rightarrow> world \<Rightarrow> error option \<times> cl_buffer list \<times> world" where
  "SetKernelArgs rt argIndex kernel' buffers clData [] w =
     SetKernelArgs1 rt argIndex kernel' buffers clData w"
| "SetKernelArgs rt argIndex kernel' buffers clData (a # args) w =
     (case SetKernelArgs1 rt argIndex kernel' buffers clData w of
        (Some e, buffers1, w1) \<Rightarrow> (Some e, buffers1, w1)
      | (None, buffers1, w1) \<Rightarrow> SetKernelArgs rt (Suc argIndex) kernel' buffers1 a args w1)"

subsection \<open>Reading the results back\<close>

text \<open>
  The overload of \<open>GetResults\<close> for one descriptor (lines 280 to 288). \<open>buffers[argIndex]\<close>
  is \<open>std::vector::operator[]\<close>, which does not check its index. The event pointer is the
  output parameter of \<open>enqueueReadBuffer\<close>: a successful call stores the new event in it.
\<close>

definition GetResults1 ::
  "runtime \<Rightarrow> nat \<Rightarrow> cl_buffer list \<Rightarrow> cl_event \<Rightarrow> cl_data_t
     \<Rightarrow> world \<Rightarrow> error option \<times> cl_event \<times> world" where
  "GetResults1 rt argIndex buffers event clData w =
     (if io_type clData = OUT \<or> io_type clData = IN_OUT then
        (if argIndex < length buffers then
           (let ev = Event (next_id w) in
            case rt_do rt (EnqueueReadBuffer (buffers ! argIndex) False 0 (size' clData)
                             (host_ptr clData) ev) w of
              (Some e, w1) \<Rightarrow> (Some (ClError e), event, w1)
            | (None, w1) \<Rightarrow> (None, ev, fresh w1))
         else (Some VectorOutOfRange, event, w))
      else (None, event, w))"

fun GetResults ::
  "runtime \<Rightarrow> nat \<Rightarrow> cl_buffer list \<Rightarrow> cl_event \<Rightarrow> cl_data_t \<Rightarrow> cl_data_t list
     \<Rightarrow> world \<Rightarrow> error option \<times> cl_event \<times> world" where
  "GetResults rt argIndex buffers event clData [] w =
     GetResults1 rt argIndex buffers event clData w"
| "GetResults rt argIndex buffers event clData (a # args) w =
     (case GetResults1 rt argIndex buffers event clData w of
        (Some e, event1, w1) \<Rightarrow> (Some e, event1, w1)
      | (None, event1, w1) \<Rightarrow> GetResults rt (Suc argIndex) buffers event1 a args w1)"

subsection \<open>\<open>AddTask\<close>\<close>

text \<open>
  What a path names, as lines 192 to 194 see it: nothing that can be opened, something that
  opens and cannot be read (a directory), or a file with its text. The state of the
  \<open>std::ifstream\<close> is never tested. A stream that failed to open yields no characters and
  does not throw. The two \<open>std::istreambuf_iterator\<close>s read from the stream buffer
  directly, so a read that fails throws \<open>std::ios_base::failure\<close>, which nothing in
  \<open>AddTask\<close> catches.
\<close>

datatype path_target = CannotOpen | Unreadable | Text string

type_synonym file_system = "string \<Rightarrow> path_target"

definition read_source :: "file_system \<Rightarrow> string \<Rightarrow> error + string" where
  "read_source fs pathToProgram =
     (case fs pathToProgram of
        CannotOpen \<Rightarrow> Inr []
      | Unreadable \<Rightarrow> Inl IosFailure
      | Text s \<Rightarrow> Inr s)"

text \<open>
  Lines 190 to 209: load and build the program unless it is cached. The result is
  \<open>build_flag\<close> and \<open>programs_[pathToProgram]\<close>. In the two assignments
  \<open>map[key] = Object(...)\<close> of \<open>AddTask\<close> the right-hand side is evaluated first (the order
  C++17 fixes), so a constructor that throws leaves the map as it was. In the handler the
  operands of \<open><<\<close> are evaluated left to right.
\<close>

definition load_program ::
  "runtime \<Rightarrow> file_system \<Rightarrow> string \<Rightarrow> OpenCLQueue \<Rightarrow> world
     \<Rightarrow> (error + bool \<times> cl_program) \<times> OpenCLQueue \<times> world" where
  "load_program rt fs pathToProgram q w =
     (case programs q pathToProgram of
        Some p \<Rightarrow> (Inr (False, p), q, w)
      | None \<Rightarrow>
          (case read_source fs pathToProgram of
             Inl e \<Rightarrow> (Inl e, q, w)
           | Inr source_code \<Rightarrow>
               (let p = Program (next_id w) in
                case rt_do rt (CreateProgram source_code (length source_code + 1) p) w of
                  (Some e, w1) \<Rightarrow> (Inl (ClError e), q, w1)
                | (None, w1) \<Rightarrow>
                    (let q1 = q\<lparr>programs := (programs q)(pathToProgram \<mapsto> p)\<rparr> in
                     case rt_do rt (BuildProgram p ''-D BLOCK_SIZE=2'') (fresh w1) of
                       (Some e, w2) \<Rightarrow>
                         (let w3 = w2\<lparr>cout := cout w2 @ ''Build log:'' @ endl\<rparr> in
                          case rt_do rt (GetBuildLog p) w3 of
                            (Some e', w4) \<Rightarrow> (Inl (ClError e'), q1, w4)
                          | (None, w4) \<Rightarrow>
                              (Inl (ClError e), q1,
                               w4\<lparr>cout := cout w4 @ rt_build_log rt (trace w3) p @ endl\<rparr>))
                     | (None, w2) \<Rightarrow> (Inr (True, p), q1, w2)))))"

definition kernel_id_str :: "string \<Rightarrow> string \<Rightarrow> string" where
  "kernel_id_str pathToProgram kernelName = pathToProgram @ ''; '' @ kernelName"

text \<open>Lines 213 and 214: \<open>kernels_[kernel_id_str] = cl::Kernel(program, kernelName)\<close>.\<close>

definition new_kernel ::
  "runtime \<Rightarrow> string \<Rightarrow> string \<Rightarrow> cl_program \<Rightarrow> OpenCLQueue \<Rightarrow> world
     \<Rightarrow> (error + cl_kernel) \<times> OpenCLQueue \<times> world" where
  "new_kernel rt pathToProgram kernelName p q w =
     (let k = Kernel (next_id w) in
      case rt_do rt (CreateKernel p kernelName k) w of
        (Some e, w1) \<Rightarrow> (Inl (ClError e), q, w1)
      | (None, w1) \<Rightarrow>
          (Inr k, q\<lparr>kernels := (kernels q)(kernel_id_str pathToProgram kernelName \<mapsto> k)\<rparr>,
           fresh w1))"

text \<open>
  Lines 210 to 215: create the kernel if \<open>build_flag\<close> is set or the key is not in
  \<open>kernels_\<close>. The result is \<open>kernels_[kernel_id_str]\<close>.
\<close>

definition create_kernel ::
  "runtime \<Rightarrow> string \<Rightarrow> string \<Rightarrow> bool \<Rightarrow> cl_program \<Rightarrow> OpenCLQueue \<Rightarrow> world
     \<Rightarrow> (error + cl_kernel) \<times> OpenCLQueue \<times> world" where
  "create_kernel rt pathToProgram kernelName build_flag p q w =
     (case kernels q (kernel_id_str pathToProgram kernelName) of
        None \<Rightarrow> new_kernel rt pathToProgram kernelName p q w
      | Some k \<Rightarrow>
          (if build_flag then new_kernel rt pathToProgram kernelName p q w
           else (Inr k, q, w)))"

text \<open>Lines 217 to 227: bind, enqueue the kernel, enqueue the read-backs, make the future.\<close>

definition fill_queue ::
  "runtime \<Rightarrow> cl_kernel \<Rightarrow> NDRange \<Rightarrow> NDRange \<Rightarrow> NDRange \<Rightarrow> cl_data_t \<Rightarrow> cl_data_t list
     \<Rightarrow> world \<Rightarrow> (error + cl_future) \<times> world" where
  "fill_queue rt kernel' offset global local clData args w =
     (case SetKernelArgs rt 0 kernel' [] clData args w of
        (Some e, buffers, w1) \<Rightarrow> (Inl e, w1)
      | (None, buffers, w1) \<Rightarrow>
          (let event = Event (next_id w1) in
           case rt_do rt (EnqueueNDRangeKernel kernel' offset global local event) w1 of
             (Some e, w2) \<Rightarrow> (Inl (ClError e), w2)
           | (None, w2) \<Rightarrow>
               (case GetResults rt 0 buffers event clData args (fresh w2) of
                  (Some e, event1, w3) \<Rightarrow> (Inl e, w3)
                | (None, event1, w3) \<Rightarrow>
                    (Inr \<lparr>event' = event1, buffers' = buffers,
                          out_val' = ComposeOutTuple clData args\<rparr>, w3))))"

text \<open>
  \<open>AddTask(pathToProgram, kernelName, offset, global, local, clData, args...)\<close>. Its return
  type names \<open>ComposeOutTuple(args...)\<close>, which has no overload for an empty pack, so a
  call compiles only with two descriptors or more: in a call of the source \<open>args\<close> is not
  empty.
\<close>

definition AddTask ::
  "runtime \<Rightarrow> file_system \<Rightarrow> string \<Rightarrow> string \<Rightarrow> NDRange \<Rightarrow> NDRange \<Rightarrow> NDRange
     \<Rightarrow> cl_data_t \<Rightarrow> cl_data_t list \<Rightarrow> OpenCLQueue \<Rightarrow> world
     \<Rightarrow> (error + cl_future) \<times> OpenCLQueue \<times> world" where
  "AddTask rt fs pathToProgram kernelName offset global local clData args q w =
     (case load_program rt fs pathToProgram q w of
        (Inl e, q1, w1) \<Rightarrow> (Inl e, q1, w1)
      | (Inr (build_flag, p), q1, w1) \<Rightarrow>
          (case create_kernel rt pathToProgram kernelName build_flag p q1 w1 of
             (Inl e, q2, w2) \<Rightarrow> (Inl e, q2, w2)
           | (Inr kernel', q2, w2) \<Rightarrow>
               (case fill_queue rt kernel' offset global local clData args w2 of
                  (r, w3) \<Rightarrow> (r, q2, w3))))"

section \<open>Vocabulary of the properties\<close>

text \<open>
  The calls that fill the command queue for the kernel \<open>k\<close>: buffer creation, argument
  binding and enqueueing. No call that creates or builds a program, reads a build log or
  creates a kernel is among them, and every call that names a kernel names \<open>k\<close>.
\<close>

fun queue_call :: "cl_kernel \<Rightarrow> rt_call \<Rightarrow> bool" where
  "queue_call k (CreateBuffer flags sz host b) = True"
| "queue_call k (SetArg k' i a) = (k' = k)"
| "queue_call k (EnqueueNDRangeKernel k' off g l ev) = (k' = k)"
| "queue_call k (EnqueueReadBuffer b blocking off sz host ev) = True"
| "queue_call k c = False"

text \<open>The calls made between two states of the world.\<close>

definition new_calls :: "world \<Rightarrow> world \<Rightarrow> rt_call list" where
  "new_calls w w' = drop (length (trace w)) (trace w')"

subsection \<open>Using a future\<close>




subsection \<open>Failed calls\<close>

text \<open>
  The calls of \<open>cs\<close>, made after the calls \<open>h\<close>, that the runtime fails: each with its
  position in the whole trace and the error the runtime gives.
\<close>

fun failed_calls :: "runtime \<Rightarrow> rt_call list \<Rightarrow> rt_call list \<Rightarrow> (nat \<times> cl_Error) list" where
  "failed_calls rt h [] = []"
| "failed_calls rt h (c # cs) =
     (case rt_fails rt h c of None \<Rightarrow> [] | Some e \<Rightarrow> [(length h, e)])
     @ failed_calls rt (h @ [c]) cs"

text \<open>
  Between two states of the world calls were only added, none of them failed and nothing
  was written to the output stream.
\<close>

definition clean :: "runtime \<Rightarrow> world \<Rightarrow> world \<Rightarrow> bool" where
  "clean rt w w' =
     (prefix (trace w) (trace w') \<and>
      failed_calls rt (trace w) (new_calls w w') = [] \<and>
      cout w' = cout w)"

text \<open>
  Between two states of the world calls were only added, exactly one of them failed, with
  the error \<open>e\<close>, it is the last call of the trace, and nothing was written to the output
  stream: the work stopped at the failure.
\<close>

definition stopped :: "runtime \<Rightarrow> world \<Rightarrow> world \<Rightarrow> cl_Error \<Rightarrow> bool" where
  "stopped rt w w' e =
     (prefix (trace w) (trace w') \<and>
      failed_calls rt (trace w) (new_calls w w') = [(length (trace w') - 1, e)] \<and>
      cout w' = cout w)"

text \<open>
  The outcome \<open>r\<close>, \<open>w'\<close> of a submission in which the program was not cached, its source
  was read, the program was created and its build failed: the calls are the creation, the
  build and the query of the build log, and nothing else. The line \<open>Build log:\<close> is
  written. When the query succeeds the log is written and the error of the build is
  raised; when the query fails its error is raised and no log is written.
\<close>

definition build_failed ::
  "runtime \<Rightarrow> file_system \<Rightarrow> string \<Rightarrow> OpenCLQueue \<Rightarrow> world
     \<Rightarrow> (error + cl_future) \<Rightarrow> world \<Rightarrow> bool" where
  "build_failed rt fs pathToProgram q w r w' =
     (case read_source fs pathToProgram of
        Inl x \<Rightarrow> False
      | Inr source_code \<Rightarrow>
          (let p = Program (next_id w);
               cp = CreateProgram source_code (length source_code + 1) p;
               bp = BuildProgram p ''-D BLOCK_SIZE=2'';
               gl = GetBuildLog p in
           programs q pathToProgram = None \<and>
           trace w' = trace w @ [cp, bp, gl] \<and>
           rt_fails rt (trace w) cp = None \<and>
           (case rt_fails rt (trace w @ [cp]) bp of
              None \<Rightarrow> False
            | Some e \<Rightarrow>
                (case rt_fails rt (trace w @ [cp, bp]) gl of
                   None \<Rightarrow>
                     r = Inl (ClError e) \<and>
                     cout w' = cout w @ ''Build log:'' @ endl
                                @ rt_build_log rt (trace w @ [cp, bp]) p @ endl
                 | Some e' \<Rightarrow>
                     r = Inl (ClError e') \<and>
                     cout w' = cout w @ ''Build log:'' @ endl))))"

subsection \<open>The binding of one descriptor, in the words of the specification\<close>

text \<open>
  Input and in-out descriptors allocate a device buffer and copy the host data in; output
  descriptors allocate a device buffer without initial copy; local descriptors reserve
  device-local scratch of the descriptor's size; scalar descriptors are passed by value
  with no buffer. \<open>spec_binding k i n d\<close> is the calls that bind the descriptor \<open>d\<close> to the
  kernel \<open>k\<close> at the position \<open>i\<close>, where \<open>n\<close> numbers the buffer if one is allocated.
\<close>

definition has_buffer :: "cl_data_t \<Rightarrow> bool" where
  "has_buffer d = (io_type d = IN \<or> io_type d = IN_OUT \<or> io_type d = OUT)"

definition spec_binding :: "cl_kernel \<Rightarrow> nat \<Rightarrow> nat \<Rightarrow> cl_data_t \<Rightarrow> rt_call list" where
  "spec_binding k i n d =
     (case io_type d of
        IN \<Rightarrow>
          [CreateBuffer [CL_MEM_READ_ONLY, CL_MEM_COPY_HOST_PTR] (size' d) (Some (host_ptr d))
             (Buffer n),
           SetArg k i (ArgBuffer (Buffer n))]
      | IN_OUT \<Rightarrow>
          [CreateBuffer [CL_MEM_READ_WRITE, CL_MEM_COPY_HOST_PTR] (size' d) (Some (host_ptr d))
             (Buffer n),
           SetArg k i (ArgBuffer (Buffer n))]
      | OUT \<Rightarrow>
          [CreateBuffer [CL_MEM_WRITE_ONLY] (size' d) None (Buffer n),
           SetArg k i (ArgBuffer (Buffer n))]
      | LOCALE \<Rightarrow> [SetArg k i (ArgLocal (size' d))]
      | VAR \<Rightarrow> [SetArg k i (ArgDeref (host_ptr d))])"

text \<open>
  The bindings of a whole argument list: the descriptor at position \<open>i\<close>, counted from
  zero, is bound at the index \<open>i\<close>; buffers are numbered from \<open>n\<close> in the order of the
  descriptors that have one.
\<close>

definition spec_bindings :: "cl_kernel \<Rightarrow> nat \<Rightarrow> cl_data_t list \<Rightarrow> rt_call list" where
  "spec_bindings k n ds =
     concat (map (\<lambda>i. spec_binding k i (n + length (filter has_buffer (take i ds))) (ds ! i))
               [0..<length ds])"

text \<open>The same list by recursion from the position \<open>i\<close>, for the proofs.\<close>

fun bindings_from :: "cl_kernel \<Rightarrow> nat \<Rightarrow> nat \<Rightarrow> cl_data_t list \<Rightarrow> rt_call list" where
  "bindings_from k i n [] = []"
| "bindings_from k i n (d # ds) =
     spec_binding k i n d @ bindings_from k (Suc i) (if has_buffer d then Suc n else n) ds"

text \<open>The calls that bind an argument or allocate its buffer.\<close>

fun binding_call :: "rt_call \<Rightarrow> bool" where
  "binding_call (CreateBuffer flags sz host b) = True"
| "binding_call (SetArg k i a) = True"
| "binding_call c = False"

subsection \<open>Concrete runtimes and inputs\<close>

text \<open>
  A runtime on which no call fails, and whose build logs are empty; a file system in which
  no path can be opened.
\<close>

definition rt_ok :: runtime where
  "rt_ok = \<lparr>rt_fails = (\<lambda>h c. None), rt_build_log = (\<lambda>h p. [])\<rparr>"

definition no_files :: file_system where
  "no_files = (\<lambda>p. CannotOpen)"

text \<open>The queue as the constructor leaves it, and a world in which nothing has happened.\<close>

definition empty_queue :: OpenCLQueue where
  "empty_queue = \<lparr>programs = Map.empty, kernels = Map.empty\<rparr>"

definition w_init :: world where
  "w_init = \<lparr>trace = [], cout = [], next_id = 0\<rparr>"

text \<open>A descriptor of 16 bytes at a host address.\<close>

definition arg :: "DataType \<Rightarrow> nat \<Rightarrow> cl_data_t" where
  "arg t p = \<lparr>host_ptr = p, size' = 16, io_type = t\<rparr>"

text \<open>
  The queue and the world after a first submission of kernel \<open>f\<close> of \<open>k.cl\<close> with a scalar
  and a local argument on a fresh queue, then after submitting \<open>f\<close> again, and after
  submitting kernel \<open>g\<close> of the same file instead.
\<close>

definition q_first :: OpenCLQueue where
  "q_first = \<lparr>programs = [''k.cl'' \<mapsto> Program 0], kernels = [''k.cl; f'' \<mapsto> Kernel 1]\<rparr>"

definition w_first :: world where
  "w_first =
     \<lparr>trace =
        [CreateProgram [] 1 (Program 0),
         BuildProgram (Program 0) ''-D BLOCK_SIZE=2'',
         CreateKernel (Program 0) ''f'' (Kernel 1),
         SetArg (Kernel 1) 0 (ArgDeref 100),
         SetArg (Kernel 1) 1 (ArgLocal 16),
         EnqueueNDRangeKernel (Kernel 1) [0] [4] [2] (Event 2)],
      cout = [], next_id = 3\<rparr>"




text \<open>
  Two pairs with one key: kernel \<open>c\<close> of the file \<open>a; b\<close> and kernel \<open>b; c\<close> of the file
  \<open>a\<close>. A runtime that, like a compiler of OpenCL C, has no kernel whose name contains a
  semicolon, and fails nowhere else.
\<close>

definition rt_c_names :: runtime where
  "rt_c_names =
     \<lparr>rt_fails = (\<lambda>h c. case c of
                     CreateKernel p n k \<Rightarrow>
                       if CHR '';'' \<in> set n then Some (Error (- 46) ''clCreateKernel'')
                       else None
                   | _ \<Rightarrow> None),
      rt_build_log = (\<lambda>h p. [])\<rparr>"

text \<open>
  The queue and the world after submitting the first pair on a fresh queue. From there:
  after submitting the second pair on the runtime where nothing fails (\<open>q_rebuilt\<close>,
  \<open>w_rebuilt\<close>); after submitting it on the runtime without such a kernel (\<open>q_stale\<close>,
  \<open>w_stale\<close>) and once more (\<open>w_reused\<close>); after submitting kernel \<open>x\<close> of \<open>a\<close> (\<open>q_both\<close>,
  \<open>w_both\<close>) and then the second pair (\<open>w_shared\<close>).
\<close>

definition q_pair1 :: OpenCLQueue where
  "q_pair1 = \<lparr>programs = [''a; b'' \<mapsto> Program 0], kernels = [''a; b; c'' \<mapsto> Kernel 1]\<rparr>"

definition w_pair1 :: world where
  "w_pair1 =
     \<lparr>trace =
        [CreateProgram [] 1 (Program 0),
         BuildProgram (Program 0) ''-D BLOCK_SIZE=2'',
         CreateKernel (Program 0) ''c'' (Kernel 1),
         SetArg (Kernel 1) 0 (ArgDeref 100),
         SetArg (Kernel 1) 1 (ArgLocal 16),
         EnqueueNDRangeKernel (Kernel 1) [0] [4] [2] (Event 2)],
      cout = [], next_id = 3\<rparr>"

definition q_rebuilt :: OpenCLQueue where
  "q_rebuilt = \<lparr>programs = [''a; b'' \<mapsto> Program 0, ''a'' \<mapsto> Program 3],
                kernels = [''a; b; c'' \<mapsto> Kernel 4]\<rparr>"

definition w_rebuilt :: world where
  "w_rebuilt =
     \<lparr>trace = trace w_pair1 @
        [CreateProgram [] 1 (Program 3),
         BuildProgram (Program 3) ''-D BLOCK_SIZE=2'',
         CreateKernel (Program 3) ''b; c'' (Kernel 4),
         SetArg (Kernel 4) 0 (ArgDeref 100),
         SetArg (Kernel 4) 1 (ArgLocal 16),
         EnqueueNDRangeKernel (Kernel 4) [0] [4] [2] (Event 5)],
      cout = [], next_id = 6\<rparr>"

definition q_stale :: OpenCLQueue where
  "q_stale = \<lparr>programs = [''a; b'' \<mapsto> Program 0, ''a'' \<mapsto> Program 3],
              kernels = [''a; b; c'' \<mapsto> Kernel 1]\<rparr>"

definition w_stale :: world where
  "w_stale =
     \<lparr>trace = trace w_pair1 @
        [CreateProgram [] 1 (Program 3),
         BuildProgram (Program 3) ''-D BLOCK_SIZE=2'',
         CreateKernel (Program 3) ''b; c'' (Kernel 4)],
      cout = [], next_id = 4\<rparr>"

definition w_reused :: world where
  "w_reused =
     \<lparr>trace = trace w_stale @
        [SetArg (Kernel 1) 0 (ArgDeref 100),
         SetArg (Kernel 1) 1 (ArgLocal 16),
         EnqueueNDRangeKernel (Kernel 1) [0] [4] [2] (Event 4)],
      cout = [], next_id = 5\<rparr>"




text \<open>
  A runtime whose compiler rejects every program, with a build log; the same runtime when
  the query of the build log fails too; a file system with one file; a runtime on which
  only the creation of a kernel fails; and a file system in which \<open>kernels\<close> is a
  directory.
\<close>

definition rt_build_fails :: runtime where
  "rt_build_fails =
     \<lparr>rt_fails = (\<lambda>h c. case c of BuildProgram p opts \<Rightarrow> Some (Error (- 11) ''clBuildProgram'')
                            | _ \<Rightarrow> None),
      rt_build_log = (\<lambda>h p. ''error: expected expression'')\<rparr>"

definition rt_log_fails :: runtime where
  "rt_log_fails =
     \<lparr>rt_fails = (\<lambda>h c. case c of
                     BuildProgram p opts \<Rightarrow> Some (Error (- 11) ''clBuildProgram'')
                   | GetBuildLog p \<Rightarrow> Some (Error (- 33) ''clGetProgramBuildInfo'')
                   | _ \<Rightarrow> None),
      rt_build_log = (\<lambda>h p. ''error: expected expression'')\<rparr>"

definition fs_bad :: file_system where
  "fs_bad = no_files(''bad.cl'' := Text ''kernel void f( {'')"

definition rt_kernel_fails :: runtime where
  "rt_kernel_fails =
     \<lparr>rt_fails = (\<lambda>h c. case c of CreateKernel p n k \<Rightarrow> Some (Error (- 46) ''clCreateKernel'')
                            | _ \<Rightarrow> None),
      rt_build_log = (\<lambda>h p. [])\<rparr>"


text \<open>
  The queue and the world after a failed build, with the log read (\<open>w_bad\<close>) and with the
  query of the log failing (\<open>w_nolog\<close>), and after a failed kernel creation.
\<close>

definition q_bad :: OpenCLQueue where
  "q_bad = \<lparr>programs = [''bad.cl'' \<mapsto> Program 0], kernels = Map.empty\<rparr>"

definition w_bad :: world where
  "w_bad =
     \<lparr>trace =
        [CreateProgram ''kernel void f( {'' 17 (Program 0),
         BuildProgram (Program 0) ''-D BLOCK_SIZE=2'',
         GetBuildLog (Program 0)],
      cout = ''Build log:'' @ endl @ ''error: expected expression'' @ endl,
      next_id = 1\<rparr>"

definition w_nolog :: world where
  "w_nolog =
     \<lparr>trace =
        [CreateProgram ''kernel void f( {'' 17 (Program 0),
         BuildProgram (Program 0) ''-D BLOCK_SIZE=2'',
         GetBuildLog (Program 0)],
      cout = ''Build log:'' @ endl,
      next_id = 1\<rparr>"

definition q_missing :: OpenCLQueue where
  "q_missing = \<lparr>programs = [''missing.cl'' \<mapsto> Program 0], kernels = Map.empty\<rparr>"

definition w_missing :: world where
  "w_missing =
     \<lparr>trace =
        [CreateProgram [] 1 (Program 0),
         BuildProgram (Program 0) ''-D BLOCK_SIZE=2'',
         CreateKernel (Program 0) ''f'' (Kernel 1)],
      cout = [], next_id = 1\<rparr>"

lemmas model_defs =
  AddTask_def load_program_def create_kernel_def new_kernel_def fill_queue_def
  kernel_id_str_def read_source_def SetKernelArgs1_def bind_buffer_def GetResults1_def
  ReturnOutData_def rt_do_def fresh_def Let_def

lemmas input_defs = rt_ok_def no_files_def empty_queue_def w_init_def arg_def

section \<open>Calls made while filling the queue\<close>

lemma new_calls_append: "trace w' = trace w @ cs \<Longrightarrow> new_calls w w' = cs"
  by (simp add: new_calls_def)

lemma rt_do_eq: "rt_do rt c w = (r, w') \<longleftrightarrow> r = rt_fails rt (trace w) c \<and> w' = w\<lparr>trace := trace w @ [c]\<rparr>"
  by (auto simp: rt_do_def)

lemma bind_buffer_calls:
  assumes "bind_buffer rt i k bufs fl sz h w = (r, bufs', w')"
  shows "\<exists>cs. trace w' = trace w @ cs \<and> list_all (queue_call k) cs \<and> cout w' = cout w"
  using assms
  by (auto simp: bind_buffer_def Let_def rt_do_eq fresh_def split: prod.splits option.splits)

lemma SetKernelArgs1_calls:
  assumes "SetKernelArgs1 rt i k bufs d w = (r, bufs', w')"
  shows "\<exists>cs. trace w' = trace w @ cs \<and> list_all (queue_call k) cs \<and> cout w' = cout w"
proof (cases "io_type d")
  case LOCALE
  with assms show ?thesis
    by (auto simp: SetKernelArgs1_def rt_do_eq split: prod.splits option.splits)
next
  case VAR
  with assms show ?thesis
    by (auto simp: SetKernelArgs1_def rt_do_eq split: prod.splits option.splits)
qed (use assms in \<open>auto simp: SetKernelArgs1_def dest: bind_buffer_calls\<close>)

lemma SetKernelArgs_calls:
  "SetKernelArgs rt i k bufs d args w = (r, bufs', w') \<Longrightarrow>
     \<exists>cs. trace w' = trace w @ cs \<and> list_all (queue_call k) cs \<and> cout w' = cout w"
proof (induction args arbitrary: i bufs d w)
  case Nil
  then show ?case by (simp add: SetKernelArgs1_calls)
next
  case (Cons a args)
  obtain r1 b1 w1 where s1: "SetKernelArgs1 rt i k bufs d w = (r1, b1, w1)"
    by (cases "SetKernelArgs1 rt i k bufs d w") auto
  from SetKernelArgs1_calls[OF s1] obtain cs1 where
    c1: "trace w1 = trace w @ cs1" "list_all (queue_call k) cs1" "cout w1 = cout w" by blast
  show ?case
  proof (cases r1)
    case None
    with Cons.prems s1 have "SetKernelArgs rt (Suc i) k b1 a args w1 = (r, bufs', w')" by simp
    from Cons.IH[OF this] obtain cs2 where
      "trace w' = trace w1 @ cs2" "list_all (queue_call k) cs2" "cout w' = cout w1" by blast
    with c1 show ?thesis by auto
  next
    case (Some e)
    with Cons.prems s1 have "w' = w1" by simp
    with c1 show ?thesis by auto
  qed
qed

lemma GetResults1_calls:
  assumes "GetResults1 rt i bufs ev d w = (r, ev', w')"
  shows "\<exists>cs. trace w' = trace w @ cs \<and> list_all (queue_call k) cs \<and> cout w' = cout w"
  using assms
  by (auto simp: GetResults1_def Let_def rt_do_eq fresh_def split: if_splits prod.splits option.splits)

lemma GetResults_calls:
  "GetResults rt i bufs ev d args w = (r, ev', w') \<Longrightarrow>
     \<exists>cs. trace w' = trace w @ cs \<and> list_all (queue_call k) cs \<and> cout w' = cout w"
proof (induction args arbitrary: i ev d w)
  case Nil
  then show ?case by (simp add: GetResults1_calls)
next
  case (Cons a args)
  obtain r1 e1 w1 where s1: "GetResults1 rt i bufs ev d w = (r1, e1, w1)"
    by (cases "GetResults1 rt i bufs ev d w") auto
  from GetResults1_calls[OF s1] obtain cs1 where
    c1: "trace w1 = trace w @ cs1" "list_all (queue_call k) cs1" "cout w1 = cout w" by blast
  show ?case
  proof (cases r1)
    case None
    with Cons.prems s1 have "GetResults rt (Suc i) bufs e1 a args w1 = (r, ev', w')" by simp
    from Cons.IH[OF this] obtain cs2 where
      "trace w' = trace w1 @ cs2" "list_all (queue_call k) cs2" "cout w' = cout w1" by blast
    with c1 show ?thesis by auto
  next
    case (Some e)
    with Cons.prems s1 have "w' = w1" by simp
    with c1 show ?thesis by auto
  qed
qed

lemma fill_queue_calls:
  assumes "fill_queue rt k off g l d args w = (r, w')"
  shows "\<exists>cs. trace w' = trace w @ cs \<and> list_all (queue_call k) cs \<and> cout w' = cout w"
proof -
  obtain r1 b1 w1 where s1: "SetKernelArgs rt 0 k [] d args w = (r1, b1, w1)"
    by (cases "SetKernelArgs rt 0 k [] d args w") auto
  from SetKernelArgs_calls[OF s1] obtain cs1 where
    c1: "trace w1 = trace w @ cs1" "list_all (queue_call k) cs1" "cout w1 = cout w" by blast
  show ?thesis
  proof (cases r1)
    case (Some e)
    with assms s1 have "w' = w1" by (simp add: fill_queue_def)
    with c1 show ?thesis by auto
  next
    case None
    let ?c = "EnqueueNDRangeKernel k off g l (Event (next_id w1))"
    let ?w2 = "w1\<lparr>trace := trace w1 @ [?c]\<rparr>"
    show ?thesis
    proof (cases "rt_fails rt (trace w1) ?c")
      case (Some e)
      with assms s1 None have "w' = ?w2" by (simp add: fill_queue_def rt_do_def)
      with c1 show ?thesis by auto
    next
      case n2: None
      obtain r3 e3 w3 where s3: "GetResults rt 0 b1 (Event (next_id w1)) d args (fresh ?w2) = (r3, e3, w3)"
        by (cases "GetResults rt 0 b1 (Event (next_id w1)) d args (fresh ?w2)") auto
      from GetResults_calls[OF s3, of k] obtain cs3 where
        c3: "trace w3 = trace (fresh ?w2) @ cs3" "list_all (queue_call k) cs3" "cout w3 = cout (fresh ?w2)" by blast
      from assms s1 None n2 s3 have "w' = w3"
        by (auto simp: fill_queue_def rt_do_def split: option.splits)
      with c1 c3 show ?thesis by (auto simp: fresh_def)
    qed
  qed
qed

lemma ComposeOutTuple_filter:
  "ComposeOutTuple d args = filter (\<lambda>x. io_type x = OUT \<or> io_type x = IN_OUT) (d # args)"
  by (induction args arbitrary: d) (auto simp: ReturnOutData_def)

lemma fill_queue_out_val:
  "fill_queue rt k off g l d args w = (Inr fut, w') \<Longrightarrow> out_val' fut = ComposeOutTuple d args"
  by (auto simp: fill_queue_def Let_def split: prod.splits option.splits)

lemma AddTask_Inr:
  "AddTask rt fs path name off g l d args q w = (Inr fut, q', w') \<Longrightarrow>
     \<exists>k w2. fill_queue rt k off g l d args w2 = (Inr fut, w')"
  by (auto simp: AddTask_def split: prod.splits sum.splits)

section \<open>Failed calls and outcomes\<close>

lemma failed_calls_append:
  "failed_calls rt h (cs1 @ cs2) = failed_calls rt h cs1 @ failed_calls rt (h @ cs1) cs2"
  by (induction cs1 arbitrary: h) simp_all

lemma failed_calls_bounds:
  "(i, e) \<in> set (failed_calls rt h cs) \<Longrightarrow> length h \<le> i \<and> i < length h + length cs"
proof (induction cs arbitrary: h)
  case Nil
  then show ?case by simp
next
  case (Cons c cs)
  from Cons.prems have
    "(i, e) \<in> set (case rt_fails rt h c of None \<Rightarrow> [] | Some e \<Rightarrow> [(length h, e)])
     \<or> (i, e) \<in> set (failed_calls rt (h @ [c]) cs)" by simp
  then show ?case
  proof
    assume "(i, e) \<in> set (case rt_fails rt h c of None \<Rightarrow> [] | Some e \<Rightarrow> [(length h, e)])"
    then show ?thesis by (auto split: option.splits)
  next
    assume "(i, e) \<in> set (failed_calls rt (h @ [c]) cs)"
    from Cons.IH[OF this] show ?thesis by simp
  qed
qed

lemma clean_iff:
  "clean rt w w' \<longleftrightarrow>
     (\<exists>cs. trace w' = trace w @ cs \<and> failed_calls rt (trace w) cs = [] \<and> cout w' = cout w)"
  by (auto simp: clean_def new_calls_def prefix_def)

lemma stopped_iff:
  "stopped rt w w' e \<longleftrightarrow>
     (\<exists>cs c. trace w' = trace w @ cs @ [c] \<and> failed_calls rt (trace w) cs = [] \<and>
             rt_fails rt (trace w @ cs) c = Some e \<and> cout w' = cout w)"
proof
  assume s: "stopped rt w w' e"
  then obtain new where t: "trace w' = trace w @ new" by (auto simp: stopped_def prefix_def)
  with s have f: "failed_calls rt (trace w) new = [(length (trace w) + length new - 1, e)]"
    and c: "cout w' = cout w"
    by (simp_all add: stopped_def new_calls_def)
  from f have "new \<noteq> []" by auto
  then obtain cs c where n: "new = cs @ [c]" by (cases new rule: rev_cases) auto
  with f have eq: "failed_calls rt (trace w) cs
      @ (case rt_fails rt (trace w @ cs) c of None \<Rightarrow> []
         | Some e' \<Rightarrow> [(length (trace w @ cs), e')])
      = [(length (trace w) + length cs, e)]"
    by (simp add: failed_calls_append)
  have none: "failed_calls rt (trace w) cs = []"
  proof (rule ccontr)
    assume "failed_calls rt (trace w) cs \<noteq> []"
    then obtain x xs where x: "failed_calls rt (trace w) cs = x # xs"
      by (cases "failed_calls rt (trace w) cs") auto
    with eq have "x = (length (trace w) + length cs, e)" by simp
    with x have "(length (trace w) + length cs, e) \<in> set (failed_calls rt (trace w) cs)" by simp
    from failed_calls_bounds[OF this] show False by simp
  qed
  with eq have "rt_fails rt (trace w @ cs) c = Some e" by (auto split: option.splits)
  with t n none c show "\<exists>cs c. trace w' = trace w @ cs @ [c] \<and> failed_calls rt (trace w) cs = [] \<and>
             rt_fails rt (trace w @ cs) c = Some e \<and> cout w' = cout w" by auto
next
  assume "\<exists>cs c. trace w' = trace w @ cs @ [c] \<and> failed_calls rt (trace w) cs = [] \<and>
             rt_fails rt (trace w @ cs) c = Some e \<and> cout w' = cout w"
  then show "stopped rt w w' e"
    by (auto simp: stopped_def new_calls_def failed_calls_append)
qed

lemma clean_same: "trace w' = trace w \<Longrightarrow> cout w' = cout w \<Longrightarrow> clean rt w w'"
  by (simp add: clean_iff)

lemma clean_from: "trace v = trace w \<Longrightarrow> cout v = cout w \<Longrightarrow> clean rt v w' = clean rt w w'"
  by (simp add: clean_iff)

lemma stopped_from:
  "trace v = trace w \<Longrightarrow> cout v = cout w \<Longrightarrow> stopped rt v w' e = stopped rt w w' e"
  by (simp add: stopped_iff)

lemma clean_to: "trace v = trace w' \<Longrightarrow> cout v = cout w' \<Longrightarrow> clean rt w v = clean rt w w'"
  by (simp add: clean_iff)

lemma clean_trans: "clean rt w w1 \<Longrightarrow> clean rt w1 w2 \<Longrightarrow> clean rt w w2"
  by (auto simp: clean_iff failed_calls_append)

lemma clean_stopped: "clean rt w w1 \<Longrightarrow> stopped rt w1 w2 e \<Longrightarrow> stopped rt w w2 e"
proof -
  assume "clean rt w w1" and "stopped rt w1 w2 e"
  then obtain cs1 cs2 c where
    "trace w1 = trace w @ cs1" "failed_calls rt (trace w) cs1 = []" "cout w1 = cout w"
    "trace w2 = trace w1 @ cs2 @ [c]" "failed_calls rt (trace w1) cs2 = []"
    "rt_fails rt (trace w1 @ cs2) c = Some e" "cout w2 = cout w1"
    by (auto simp: clean_iff stopped_iff)
  then have "trace w2 = trace w @ (cs1 @ cs2) @ [c] \<and> failed_calls rt (trace w) (cs1 @ cs2) = [] \<and>
       rt_fails rt (trace w @ (cs1 @ cs2)) c = Some e \<and> cout w2 = cout w"
    by (simp add: failed_calls_append)
  then show ?thesis unfolding stopped_iff by blast
qed

lemma clean_trace: "clean rt w w' \<Longrightarrow> \<exists>cs. trace w' = trace w @ cs"
  by (auto simp: clean_iff)

lemma rt_do_outcome:
  assumes "rt_do rt c w = (r, w1)"
  shows "case r of None \<Rightarrow> clean rt w w1 | Some e \<Rightarrow> stopped rt w w1 e"
proof (cases r)
  case None
  with assms have "trace w1 = trace w @ [c] \<and> failed_calls rt (trace w) [c] = [] \<and> cout w1 = cout w"
    by (auto simp: rt_do_def)
  with None show ?thesis unfolding clean_iff by auto
next
  case (Some e)
  with assms have "trace w1 = trace w @ [] @ [c] \<and> failed_calls rt (trace w) [] = [] \<and>
      rt_fails rt (trace w @ []) c = Some e \<and> cout w1 = cout w"
    by (auto simp: rt_do_def)
  with Some show ?thesis unfolding stopped_iff by (simp del: append_Nil)
qed

lemma rt_do_clean: "rt_do rt c w = (None, w1) \<Longrightarrow> clean rt w w1"
  using rt_do_outcome[of rt c w None w1] by simp

lemma rt_do_stopped: "rt_do rt c w = (Some e, w1) \<Longrightarrow> stopped rt w w1 e"
  using rt_do_outcome[of rt c w "Some e" w1] by simp

lemma trace_fresh [simp]: "trace (fresh w) = trace w"
  by (simp add: fresh_def)

lemma cout_fresh [simp]: "cout (fresh w) = cout w"
  by (simp add: fresh_def)

lemma bind_buffer_outcome:
  assumes "bind_buffer rt i k bufs fl sz h w = (r, bufs', w')"
  shows "case r of None \<Rightarrow> clean rt w w'
         | Some err \<Rightarrow> \<exists>e. err = ClError e \<and> stopped rt w w' e"
proof -
  obtain r1 w1 where d1: "rt_do rt (CreateBuffer fl sz h (Buffer (next_id w))) w = (r1, w1)"
    by (cases "rt_do rt (CreateBuffer fl sz h (Buffer (next_id w))) w") auto
  show ?thesis
  proof (cases r1)
    case (Some e)
    with assms d1 have "r = Some (ClError e)" "w' = w1" by (simp_all add: bind_buffer_def)
    with rt_do_stopped d1 Some show ?thesis by auto
  next
    case None
    with d1 have c1: "clean rt w w1" by (simp add: rt_do_clean)
    obtain r2 w2 where
      d2: "rt_do rt (SetArg k i (ArgBuffer (Buffer (next_id w)))) (fresh w1) = (r2, w2)"
      by (cases "rt_do rt (SetArg k i (ArgBuffer (Buffer (next_id w)))) (fresh w1)") auto
    from c1 have c1': "clean rt w (fresh w1)" by (simp add: clean_to[of "fresh w1" w1])
    show ?thesis
    proof (cases r2)
      case n2: None
      with assms d1 None d2 have "r = None" "w' = w2" by (simp_all add: bind_buffer_def)
      with d2 n2 c1' show ?thesis by (auto intro: clean_trans rt_do_clean)
    next
      case (Some e)
      with assms d1 None d2 have "r = Some (ClError e)" "w' = w2" by (simp_all add: bind_buffer_def)
      with d2 Some c1' show ?thesis by (auto intro: clean_stopped rt_do_stopped)
    qed
  qed
qed

lemma SetKernelArgs1_outcome:
  assumes "SetKernelArgs1 rt i k bufs d w = (r, bufs', w')"
  shows "case r of None \<Rightarrow> clean rt w w'
         | Some err \<Rightarrow> \<exists>e. err = ClError e \<and> stopped rt w w' e"
proof (cases "io_type d")
  case LOCALE
  with assms show ?thesis
    by (auto simp: SetKernelArgs1_def dest: rt_do_clean rt_do_stopped split: prod.splits option.splits)
next
  case VAR
  with assms show ?thesis
    by (auto simp: SetKernelArgs1_def dest: rt_do_clean rt_do_stopped split: prod.splits option.splits)
qed (use assms bind_buffer_outcome in \<open>simp_all add: SetKernelArgs1_def\<close>)

lemma SetKernelArgs_outcome:
  "SetKernelArgs rt i k bufs d args w = (r, bufs', w') \<Longrightarrow>
     (case r of None \<Rightarrow> clean rt w w'
      | Some err \<Rightarrow> \<exists>e. err = ClError e \<and> stopped rt w w' e)"
proof (induction args arbitrary: i bufs d w)
  case Nil
  then show ?case by (simp add: SetKernelArgs1_outcome)
next
  case (Cons a args)
  obtain r1 b1 w1 where s1: "SetKernelArgs1 rt i k bufs d w = (r1, b1, w1)"
    by (cases "SetKernelArgs1 rt i k bufs d w") auto
  note o1 = SetKernelArgs1_outcome[OF s1]
  show ?case
  proof (cases r1)
    case (Some err)
    with Cons.prems s1 have "r = Some err" "w' = w1" by simp_all
    with o1 Some show ?thesis by simp
  next
    case None
    with Cons.prems s1 have s2: "SetKernelArgs rt (Suc i) k b1 a args w1 = (r, bufs', w')" by simp
    from o1 None have c1: "clean rt w w1" by simp
    from Cons.IH[OF s2] c1 show ?thesis
      by (auto split: option.splits intro: clean_trans clean_stopped)
  qed
qed

lemma GetResults1_outcome:
  assumes "GetResults1 rt i bufs ev d w = (r, ev', w')"
  shows "case r of None \<Rightarrow> clean rt w w'
         | Some (ClError e) \<Rightarrow> stopped rt w w' e
         | Some IosFailure \<Rightarrow> False
         | Some VectorOutOfRange \<Rightarrow> clean rt w w'"
  using assms
  by (auto simp: GetResults1_def Let_def clean_to[of "fresh v" v for v] clean_same
        dest: rt_do_clean rt_do_stopped split: if_splits prod.splits option.splits)

lemma GetResults_outcome:
  "GetResults rt i bufs ev d args w = (r, ev', w') \<Longrightarrow>
     (case r of None \<Rightarrow> clean rt w w'
      | Some (ClError e) \<Rightarrow> stopped rt w w' e
      | Some IosFailure \<Rightarrow> False
      | Some VectorOutOfRange \<Rightarrow> clean rt w w')"
proof (induction args arbitrary: i ev d w)
  case Nil
  then show ?case by (simp add: GetResults1_outcome)
next
  case (Cons a args)
  obtain r1 e1 w1 where s1: "GetResults1 rt i bufs ev d w = (r1, e1, w1)"
    by (cases "GetResults1 rt i bufs ev d w") auto
  note o1 = GetResults1_outcome[OF s1]
  show ?case
  proof (cases r1)
    case (Some err)
    with Cons.prems s1 have "r = Some err" "w' = w1" by simp_all
    with o1 Some show ?thesis by (auto split: error.splits)
  next
    case None
    with Cons.prems s1 have s2: "GetResults rt (Suc i) bufs e1 a args w1 = (r, ev', w')" by simp
    from o1 None have c1: "clean rt w w1" by simp
    from Cons.IH[OF s2] c1 show ?thesis
      by (auto split: option.splits error.splits intro: clean_trans clean_stopped)
  qed
qed

lemma fill_queue_outcome:
  assumes "fill_queue rt k off g l d args w = (r, w')"
  shows "case r of Inr fut \<Rightarrow> clean rt w w'
         | Inl (ClError e) \<Rightarrow> stopped rt w w' e
         | Inl IosFailure \<Rightarrow> False
         | Inl VectorOutOfRange \<Rightarrow> clean rt w w'"
proof -
  obtain r1 b1 w1 where s1: "SetKernelArgs rt 0 k [] d args w = (r1, b1, w1)"
    by (cases "SetKernelArgs rt 0 k [] d args w") auto
  note o1 = SetKernelArgs_outcome[OF s1]
  show ?thesis
  proof (cases r1)
    case (Some err)
    with assms s1 have "r = Inl err" "w' = w1" by (simp_all add: fill_queue_def)
    with o1 Some show ?thesis by auto
  next
    case None
    with o1 have c1: "clean rt w w1" by simp
    obtain r2 w2 where
      d2: "rt_do rt (EnqueueNDRangeKernel k off g l (Event (next_id w1))) w1 = (r2, w2)"
      by (cases "rt_do rt (EnqueueNDRangeKernel k off g l (Event (next_id w1))) w1") auto
    show ?thesis
    proof (cases r2)
      case (Some e)
      with assms s1 None d2 have "r = Inl (ClError e)" "w' = w2"
        by (simp_all add: fill_queue_def)
      with d2 Some c1 show ?thesis by (auto intro: clean_stopped rt_do_stopped)
    next
      case n2: None
      with d2 c1 have c2: "clean rt w (fresh w2)"
        by (auto simp: clean_to[of "fresh w2" w2] intro: clean_trans rt_do_clean)
      obtain r3 e3 w3 where
        s3: "GetResults rt 0 b1 (Event (next_id w1)) d args (fresh w2) = (r3, e3, w3)"
        by (cases "GetResults rt 0 b1 (Event (next_id w1)) d args (fresh w2)") auto
      note o3 = GetResults_outcome[OF s3]
      from assms s1 None d2 n2 s3 have "w' = w3"
        and "r = (case r3 of None \<Rightarrow> Inr \<lparr>event' = e3, buffers' = b1,
                                            out_val' = ComposeOutTuple d args\<rparr>
                  | Some e \<Rightarrow> Inl e)"
        by (auto simp: fill_queue_def split: option.splits)
      with o3 c2 show ?thesis
        by (auto split: option.splits error.splits intro: clean_trans clean_stopped)
    qed
  qed
qed

lemma new_kernel_outcome:
  assumes "new_kernel rt path name p q w = (res, q2, w2)"
  shows "case res of Inr k \<Rightarrow> clean rt w w2
         | Inl err \<Rightarrow> \<exists>e. err = ClError e \<and> stopped rt w w2 e \<and> q2 = q"
  using assms
  by (auto simp: new_kernel_def Let_def clean_to[of "fresh v" v for v]
        dest: rt_do_clean rt_do_stopped split: prod.splits option.splits)

lemma create_kernel_outcome:
  assumes "create_kernel rt path name flag p q w = (res, q2, w2)"
  shows "case res of Inr k \<Rightarrow> clean rt w w2
         | Inl err \<Rightarrow> \<exists>e. err = ClError e \<and> stopped rt w w2 e \<and> q2 = q"
  using assms new_kernel_outcome[of rt path name p q w res q2 w2]
  by (auto simp: create_kernel_def clean_same split: option.splits if_splits sum.splits)

section \<open>Loading the program\<close>

lemma load_program_cached:
  "programs q path = Some p \<Longrightarrow> load_program rt fs path q w = (Inr (False, p), q, w)"
  by (simp add: load_program_def)

lemma load_program_unreadable:
  assumes "programs q path = None" and "read_source fs path = Inl err"
  shows "load_program rt fs path q w = (Inl err, q, w)"
  using assms by (simp add: load_program_def)

lemma load_program_create_fails:
  assumes "programs q path = None" and "read_source fs path = Inr source"
      and "rt_fails rt (trace w) (CreateProgram source (length source + 1) (Program (next_id w)))
           = Some e"
  shows "load_program rt fs path q w
         = (Inl (ClError e), q,
            w\<lparr>trace := trace w @
                 [CreateProgram source (length source + 1) (Program (next_id w))]\<rparr>)"
  using assms by (simp add: load_program_def Let_def rt_do_def)

lemma load_program_built:
  assumes "programs q path = None" and "read_source fs path = Inr source"
      and "rt_fails rt (trace w) (CreateProgram source (length source + 1) (Program (next_id w)))
           = None"
      and "rt_fails rt
             (trace w @ [CreateProgram source (length source + 1) (Program (next_id w))])
             (BuildProgram (Program (next_id w)) ''-D BLOCK_SIZE=2'') = None"
  shows "load_program rt fs path q w
         = (Inr (True, Program (next_id w)),
            q\<lparr>programs := (programs q)(path \<mapsto> Program (next_id w))\<rparr>,
            w\<lparr>trace := trace w @
                  [CreateProgram source (length source + 1) (Program (next_id w)),
                   BuildProgram (Program (next_id w)) ''-D BLOCK_SIZE=2''],
               next_id := Suc (next_id w)\<rparr>)"
  using assms by (simp add: load_program_def Let_def rt_do_def fresh_def)

lemma load_program_build_fails:
  assumes "programs q path = None" and "read_source fs path = Inr source"
      and "rt_fails rt (trace w) (CreateProgram source (length source + 1) (Program (next_id w)))
           = None"
      and "rt_fails rt
             (trace w @ [CreateProgram source (length source + 1) (Program (next_id w))])
             (BuildProgram (Program (next_id w)) ''-D BLOCK_SIZE=2'') = Some e"
  shows "load_program rt fs path q w
         = ((case rt_fails rt
                   (trace w @ [CreateProgram source (length source + 1) (Program (next_id w)),
                               BuildProgram (Program (next_id w)) ''-D BLOCK_SIZE=2''])
                   (GetBuildLog (Program (next_id w))) of
               None \<Rightarrow> Inl (ClError e)
             | Some e' \<Rightarrow> Inl (ClError e')),
            q\<lparr>programs := (programs q)(path \<mapsto> Program (next_id w))\<rparr>,
            w\<lparr>trace := trace w @
                  [CreateProgram source (length source + 1) (Program (next_id w)),
                   BuildProgram (Program (next_id w)) ''-D BLOCK_SIZE=2'',
                   GetBuildLog (Program (next_id w))],
               cout :=
                 (case rt_fails rt
                   (trace w @ [CreateProgram source (length source + 1) (Program (next_id w)),
                               BuildProgram (Program (next_id w)) ''-D BLOCK_SIZE=2''])
                   (GetBuildLog (Program (next_id w))) of
                    None \<Rightarrow>
                      cout w @ ''Build log:'' @ endl @
                      rt_build_log rt
                        (trace w @
                         [CreateProgram source (length source + 1) (Program (next_id w)),
                          BuildProgram (Program (next_id w)) ''-D BLOCK_SIZE=2''])
                        (Program (next_id w)) @ endl
                  | Some e' \<Rightarrow> cout w @ ''Build log:'' @ endl),
               next_id := Suc (next_id w)\<rparr>)"
  using assms
  by (simp add: load_program_def Let_def rt_do_def fresh_def split: option.splits)

lemma AddTask_load_fails:
  "load_program rt fs path q w = (Inl err, q1, w1) \<Longrightarrow>
     AddTask rt fs path name off g l d args q w = (Inl err, q1, w1)"
  by (simp add: AddTask_def)

lemma build_failed_intro:
  assumes nc: "programs q path = None" and src: "read_source fs path = Inr source"
      and created: "rt_fails rt (trace w)
             (CreateProgram source (length source + 1) (Program (next_id w))) = None"
      and build_fails: "rt_fails rt
             (trace w @ [CreateProgram source (length source + 1) (Program (next_id w))])
             (BuildProgram (Program (next_id w)) ''-D BLOCK_SIZE=2'') = Some e"
      and lp: "load_program rt fs path q w = (res, q1, w1)"
  shows "\<exists>err. res = Inl err \<and> build_failed rt fs path q w (Inl err) w1"
  using lp load_program_build_fails[OF nc src created build_fails] nc src created build_fails
  by (auto simp: build_failed_def Let_def split: option.splits)

lemma build_failed_error:
  "build_failed rt fs path q w r w' \<Longrightarrow> \<exists>e. r = Inl (ClError e)"
  by (auto simp: build_failed_def Let_def split: sum.splits option.splits)

lemma load_program_outcome:
  assumes lp: "load_program rt fs path q w = (res, q1, w1)"
  shows "case res of
           Inr x \<Rightarrow> clean rt w w1
         | Inl IosFailure \<Rightarrow> w1 = w
         | Inl VectorOutOfRange \<Rightarrow> False
         | Inl (ClError e) \<Rightarrow> stopped rt w w1 e \<or> build_failed rt fs path q w (Inl (ClError e)) w1"
proof (cases "programs q path")
  case (Some p)
  with lp show ?thesis by (auto simp: load_program_cached clean_same)
next
  case nc: None
  show ?thesis
  proof (cases "read_source fs path")
    case (Inl err)
    then have "err = IosFailure" by (auto simp: read_source_def split: path_target.splits)
    with lp load_program_unreadable[OF nc Inl, of rt w] show ?thesis by auto
  next
    case src: (Inr source)
    let ?cp = "CreateProgram source (length source + 1) (Program (next_id w))"
    let ?bp = "BuildProgram (Program (next_id w)) ''-D BLOCK_SIZE=2''"
    show ?thesis
    proof (cases "rt_fails rt (trace w) ?cp")
      case (Some e)
      from lp load_program_create_fails[OF nc src Some]
      have "res = Inl (ClError e)" "w1 = w\<lparr>trace := trace w @ [?cp]\<rparr>" by simp_all
      moreover have "stopped rt w (w\<lparr>trace := trace w @ [?cp]\<rparr>) e"
        using Some by (intro rt_do_stopped[of rt ?cp w]) (simp add: rt_do_def)
      ultimately show ?thesis by simp
    next
      case created: None
      show ?thesis
      proof (cases "rt_fails rt (trace w @ [?cp]) ?bp")
        case None
        from lp load_program_built[OF nc src created None]
        have "res = Inr (True, Program (next_id w))"
          and w1: "w1 = w\<lparr>trace := trace w @ [?cp, ?bp], next_id := Suc (next_id w)\<rparr>"
          by simp_all
        moreover have "clean rt w w1"
          unfolding clean_iff using w1 created None by simp
        ultimately show ?thesis by simp
      next
        case (Some e)
        from build_failed_intro[OF nc src created Some lp] obtain err where
          res: "res = Inl err" and bf: "build_failed rt fs path q w (Inl err) w1" by blast
        from build_failed_error[OF bf] obtain e' where "err = ClError e'" by auto
        with res bf show ?thesis by simp
      qed
    qed
  qed
qed

lemma AddTask_stages:
  assumes "AddTask rt fs path name off g l d args q w = (r, q', w')"
  shows "(\<exists>err. load_program rt fs path q w = (Inl err, q', w') \<and> r = Inl err)
       \<or> (\<exists>x q1 w1 err. load_program rt fs path q w = (Inr x, q1, w1) \<and>
             create_kernel rt path name (fst x) (snd x) q1 w1 = (Inl err, q', w') \<and> r = Inl err)
       \<or> (\<exists>x q1 w1 k w2. load_program rt fs path q w = (Inr x, q1, w1) \<and>
             create_kernel rt path name (fst x) (snd x) q1 w1 = (Inr k, q', w2) \<and>
             fill_queue rt k off g l d args w2 = (r, w'))"
  using assms
  by (auto simp: AddTask_def split: prod.splits sum.splits)

lemma AddTask_outcome:
  assumes run: "AddTask rt fs path name off g l d args q w = (r, q', w')"
  shows "(clean rt w w' \<and> (case r of Inl (ClError e) \<Rightarrow> False | _ \<Rightarrow> True))
       \<or> (\<exists>e. stopped rt w w' e \<and> r = Inl (ClError e))
       \<or> build_failed rt fs path q w r w'"
proof -
  from AddTask_stages[OF run] consider
    (load) err where "load_program rt fs path q w = (Inl err, q', w')" "r = Inl err"
  | (kern) x q1 w1 err where "load_program rt fs path q w = (Inr x, q1, w1)"
      "create_kernel rt path name (fst x) (snd x) q1 w1 = (Inl err, q', w')" "r = Inl err"
  | (fill) x q1 w1 k w2 where "load_program rt fs path q w = (Inr x, q1, w1)"
      "create_kernel rt path name (fst x) (snd x) q1 w1 = (Inr k, q', w2)"
      "fill_queue rt k off g l d args w2 = (r, w')"
    by auto
  then show ?thesis
  proof cases
    case load
    from load_program_outcome[OF load(1)] load(2) show ?thesis
      by (cases err) (auto simp: clean_same)
  next
    case kern
    from load_program_outcome[OF kern(1)] have "clean rt w w1" by simp
    moreover from create_kernel_outcome[OF kern(2)] obtain e where
      "err = ClError e" "stopped rt w1 w' e" by auto
    ultimately show ?thesis using kern(3) by (auto intro: clean_stopped)
  next
    case fill
    from load_program_outcome[OF fill(1)] have "clean rt w w1" by simp
    moreover from create_kernel_outcome[OF fill(2)] have "clean rt w1 w2" by simp
    ultimately have c: "clean rt w w2" by (rule clean_trans)
    from fill_queue_outcome[OF fill(3)] c show ?thesis
      by (auto split: sum.splits error.splits intro: clean_trans clean_stopped)
  qed
qed

section \<open>Two submissions on a fresh queue\<close>

text \<open>
  A first submission with all five kinds of descriptor, and one with input descriptors only,
  on a runtime where nothing fails. The path cannot be opened, so the source text is empty.
\<close>

lemma run_mixed:
  "AddTask rt_ok no_files ''k.cl'' ''f'' [0] [4] [2]
      (arg IN 100) [arg OUT 200, arg IN_OUT 300, arg VAR 400, arg LOCALE 0] empty_queue w_init
    = (Inr \<lparr>event' = Event 7, buffers' = [Buffer 2, Buffer 3, Buffer 4],
             out_val' = [arg OUT 200, arg IN_OUT 300]\<rparr>,
       \<lparr>programs = [''k.cl'' \<mapsto> Program 0], kernels = [''k.cl; f'' \<mapsto> Kernel 1]\<rparr>,
       \<lparr>trace =
          [CreateProgram [] 1 (Program 0),
           BuildProgram (Program 0) ''-D BLOCK_SIZE=2'',
           CreateKernel (Program 0) ''f'' (Kernel 1),
           CreateBuffer [CL_MEM_READ_ONLY, CL_MEM_COPY_HOST_PTR] 16 (Some 100) (Buffer 2),
           SetArg (Kernel 1) 0 (ArgBuffer (Buffer 2)),
           CreateBuffer [CL_MEM_WRITE_ONLY] 16 None (Buffer 3),
           SetArg (Kernel 1) 1 (ArgBuffer (Buffer 3)),
           CreateBuffer [CL_MEM_READ_WRITE, CL_MEM_COPY_HOST_PTR] 16 (Some 300) (Buffer 4),
           SetArg (Kernel 1) 2 (ArgBuffer (Buffer 4)),
           SetArg (Kernel 1) 3 (ArgDeref 400),
           SetArg (Kernel 1) 4 (ArgLocal 16),
           EnqueueNDRangeKernel (Kernel 1) [0] [4] [2] (Event 5),
           EnqueueReadBuffer (Buffer 3) False 0 16 200 (Event 6),
           EnqueueReadBuffer (Buffer 4) False 0 16 300 (Event 7)],
        cout = [], next_id = 8\<rparr>)"
  by (simp add: model_defs input_defs)

lemma run_inputs_only:
  "AddTask rt_ok no_files ''k.cl'' ''f'' [0] [4] [2]
      (arg IN 100) [arg VAR 400, arg LOCALE 0] empty_queue w_init
    = (Inr \<lparr>event' = Event 3, buffers' = [Buffer 2], out_val' = []\<rparr>,
       \<lparr>programs = [''k.cl'' \<mapsto> Program 0], kernels = [''k.cl; f'' \<mapsto> Kernel 1]\<rparr>,
       \<lparr>trace =
          [CreateProgram [] 1 (Program 0),
           BuildProgram (Program 0) ''-D BLOCK_SIZE=2'',
           CreateKernel (Program 0) ''f'' (Kernel 1),
           CreateBuffer [CL_MEM_READ_ONLY, CL_MEM_COPY_HOST_PTR] 16 (Some 100) (Buffer 2),
           SetArg (Kernel 1) 0 (ArgBuffer (Buffer 2)),
           SetArg (Kernel 1) 1 (ArgDeref 400),
           SetArg (Kernel 1) 2 (ArgLocal 16),
           EnqueueNDRangeKernel (Kernel 1) [0] [4] [2] (Event 3)],
        cout = [], next_id = 4\<rparr>)"
  by (simp add: model_defs input_defs)

section \<open>The output tuple\<close>

text \<open>
  Claim C3. Whenever \<open>AddTask\<close> returns a future, its output tuple holds exactly the
  descriptors tagged \<open>OUT\<close> or \<open>IN_OUT\<close>, in the order of the argument list; when every
  descriptor is tagged \<open>IN\<close>, \<open>LOCALE\<close> or \<open>VAR\<close> the tuple is empty.
\<close>

theorem AddTask_output_tuple:
  assumes "AddTask rt fs pathToProgram kernelName off g l clData args q w = (Inr fut, q', w')"
  shows "out_val' fut = filter (\<lambda>d. io_type d = OUT \<or> io_type d = IN_OUT) (clData # args)
       \<and> ((\<forall>d \<in> set (clData # args). io_type d = IN \<or> io_type d = LOCALE \<or> io_type d = VAR)
            \<longrightarrow> out_val' fut = [])"
proof -
  from AddTask_Inr[OF assms] obtain k w2 where
    "fill_queue rt k off g l clData args w2 = (Inr fut, w')" by blast
  then have eq: "out_val' fut = filter (\<lambda>d. io_type d = OUT \<or> io_type d = IN_OUT) (clData # args)"
    by (simp add: fill_queue_out_val ComposeOutTuple_filter del: filter.simps)
  moreover have "(\<forall>d \<in> set (clData # args). io_type d = IN \<or> io_type d = LOCALE \<or> io_type d = VAR)
            \<longrightarrow> filter (\<lambda>d. io_type d = OUT \<or> io_type d = IN_OUT) (clData # args) = []"
    unfolding filter_empty_conv by auto
  ultimately show ?thesis by simp
qed

theorem AddTask_output_tuple_witness:
  "AddTask rt_ok no_files ''k.cl'' ''f'' [0] [4] [2]
      (arg IN 100) [arg OUT 200, arg IN_OUT 300, arg VAR 400, arg LOCALE 0] empty_queue w_init
    = (Inr \<lparr>event' = Event 7, buffers' = [Buffer 2, Buffer 3, Buffer 4],
             out_val' = [arg OUT 200, arg IN_OUT 300]\<rparr>,
       \<lparr>programs = [''k.cl'' \<mapsto> Program 0], kernels = [''k.cl; f'' \<mapsto> Kernel 1]\<rparr>,
       \<lparr>trace =
          [CreateProgram [] 1 (Program 0),
           BuildProgram (Program 0) ''-D BLOCK_SIZE=2'',
           CreateKernel (Program 0) ''f'' (Kernel 1),
           CreateBuffer [CL_MEM_READ_ONLY, CL_MEM_COPY_HOST_PTR] 16 (Some 100) (Buffer 2),
           SetArg (Kernel 1) 0 (ArgBuffer (Buffer 2)),
           CreateBuffer [CL_MEM_WRITE_ONLY] 16 None (Buffer 3),
           SetArg (Kernel 1) 1 (ArgBuffer (Buffer 3)),
           CreateBuffer [CL_MEM_READ_WRITE, CL_MEM_COPY_HOST_PTR] 16 (Some 300) (Buffer 4),
           SetArg (Kernel 1) 2 (ArgBuffer (Buffer 4)),
           SetArg (Kernel 1) 3 (ArgDeref 400),
           SetArg (Kernel 1) 4 (ArgLocal 16),
           EnqueueNDRangeKernel (Kernel 1) [0] [4] [2] (Event 5),
           EnqueueReadBuffer (Buffer 3) False 0 16 200 (Event 6),
           EnqueueReadBuffer (Buffer 4) False 0 16 300 (Event 7)],
        cout = [], next_id = 8\<rparr>)
   \<and> [arg OUT 200, arg IN_OUT 300]
       = filter (\<lambda>d. io_type d = OUT \<or> io_type d = IN_OUT)
           [arg IN 100, arg OUT 200, arg IN_OUT 300, arg VAR 400, arg LOCALE 0]
   \<and> AddTask rt_ok no_files ''k.cl'' ''f'' [0] [4] [2]
        (arg IN 100) [arg VAR 400, arg LOCALE 0] empty_queue w_init
    = (Inr \<lparr>event' = Event 3, buffers' = [Buffer 2], out_val' = []\<rparr>,
       \<lparr>programs = [''k.cl'' \<mapsto> Program 0], kernels = [''k.cl; f'' \<mapsto> Kernel 1]\<rparr>,
       \<lparr>trace =
          [CreateProgram [] 1 (Program 0),
           BuildProgram (Program 0) ''-D BLOCK_SIZE=2'',
           CreateKernel (Program 0) ''f'' (Kernel 1),
           CreateBuffer [CL_MEM_READ_ONLY, CL_MEM_COPY_HOST_PTR] 16 (Some 100) (Buffer 2),
           SetArg (Kernel 1) 0 (ArgBuffer (Buffer 2)),
           SetArg (Kernel 1) 1 (ArgDeref 400),
           SetArg (Kernel 1) 2 (ArgLocal 16),
           EnqueueNDRangeKernel (Kernel 1) [0] [4] [2] (Event 3)],
        cout = [], next_id = 4\<rparr>)
   \<and> list_all (\<lambda>d. io_type d = IN \<or> io_type d = LOCALE \<or> io_type d = VAR)
         [arg IN 100, arg VAR 400, arg LOCALE 0]"
  using AddTask_output_tuple[OF run_mixed] AddTask_output_tuple[OF run_inputs_only]
    run_mixed run_inputs_only
  by (simp add: arg_def)

section \<open>Futures\<close>





section \<open>Short submissions used as examples\<close>

text \<open>
  Each submission has a scalar and a local descriptor. On a fresh queue: kernel \<open>f\<close> of
  \<open>k.cl\<close>, then \<open>f\<close> again, or kernel \<open>g\<close> of the same file.
\<close>

lemma run_first:
  "AddTask rt_ok no_files ''k.cl'' ''f'' [0] [4] [2] (arg VAR 100) [arg LOCALE 0]
     empty_queue w_init
   = (Inr \<lparr>event' = Event 2, buffers' = [], out_val' = []\<rparr>, q_first, w_first)"
  by (simp add: model_defs input_defs q_first_def w_first_def)



text \<open>The two pairs with one key, on the runtime where nothing fails.\<close>

lemma run_pair1:
  "AddTask rt_ok no_files ''a; b'' ''c'' [0] [4] [2] (arg VAR 100) [arg LOCALE 0]
     empty_queue w_init
   = (Inr \<lparr>event' = Event 2, buffers' = [], out_val' = []\<rparr>, q_pair1, w_pair1)"
  by (simp add: model_defs input_defs q_pair1_def w_pair1_def)

lemma run_rebuilt:
  "AddTask rt_ok no_files ''a'' ''b; c'' [0] [4] [2] (arg VAR 100) [arg LOCALE 0]
     q_pair1 w_pair1
   = (Inr \<lparr>event' = Event 5, buffers' = [], out_val' = []\<rparr>, q_rebuilt, w_rebuilt)"
  by (simp add: model_defs input_defs q_pair1_def w_pair1_def q_rebuilt_def w_rebuilt_def)



text \<open>The two pairs on the runtime that has no kernel with a semicolon in its name.\<close>

lemma run_pair1_strict:
  "AddTask rt_c_names no_files ''a; b'' ''c'' [0] [4] [2] (arg VAR 100) [arg LOCALE 0]
     empty_queue w_init
   = (Inr \<lparr>event' = Event 2, buffers' = [], out_val' = []\<rparr>, q_pair1, w_pair1)"
  by (simp add: model_defs input_defs rt_c_names_def q_pair1_def w_pair1_def)

lemma run_stale:
  "AddTask rt_c_names no_files ''a'' ''b; c'' [0] [4] [2] (arg VAR 100) [arg LOCALE 0]
     q_pair1 w_pair1
   = (Inl (ClError (Error (- 46) ''clCreateKernel'')), q_stale, w_stale)"
  by (simp add: model_defs input_defs rt_c_names_def q_pair1_def w_pair1_def q_stale_def
        w_stale_def)

lemma run_reused:
  "AddTask rt_c_names no_files ''a'' ''b; c'' [0] [4] [2] (arg VAR 100) [arg LOCALE 0]
     q_stale w_stale
   = (Inr \<lparr>event' = Event 4, buffers' = [], out_val' = []\<rparr>, q_stale, w_reused)"
  by (simp add: model_defs input_defs rt_c_names_def q_pair1_def w_pair1_def q_stale_def
        w_stale_def w_reused_def)

text \<open>Failures: of the build, of the build and the query of its log, and of a kernel.\<close>

lemma run_bad:
  "AddTask rt_build_fails fs_bad ''bad.cl'' ''f'' [0] [4] [2] (arg IN 100) [arg OUT 200]
     empty_queue w_init
   = (Inl (ClError (Error (- 11) ''clBuildProgram'')), q_bad, w_bad)"
  by (simp add: model_defs input_defs rt_build_fails_def fs_bad_def q_bad_def w_bad_def)

lemma run_nolog:
  "AddTask rt_log_fails fs_bad ''bad.cl'' ''f'' [0] [4] [2] (arg IN 100) [arg OUT 200]
     empty_queue w_init
   = (Inl (ClError (Error (- 33) ''clGetProgramBuildInfo'')), q_bad, w_nolog)"
  by (simp add: model_defs input_defs rt_log_fails_def fs_bad_def q_bad_def w_nolog_def)

lemma run_missing:
  "AddTask rt_kernel_fails no_files ''missing.cl'' ''f'' [0] [4] [2] (arg IN 100) [arg OUT 200]
     empty_queue w_init
   = (Inl (ClError (Error (- 46) ''clCreateKernel'')), q_missing, w_missing)"
  by (simp add: model_defs input_defs rt_kernel_fails_def q_missing_def w_missing_def)


section \<open>Reuse of the caches\<close>








section \<open>A program compiled in the call\<close>

text \<open>
  Claim C5, as the code has it. When the program of the path is not cached and the runtime
  creates and builds it in this call, the program is cached and the next call is the
  creation of the kernel from the program just built, whether or not the kernel cache
  held a handle under the key. When that creation succeeds, the new kernel replaces what
  the cache held under the key; when it fails, its error is raised and the kernel cache
  is left as it was, with the handle it held under the key.
\<close>

theorem AddTask_rebuilds_kernel:
  assumes nc: "programs q path = None"
      and src: "read_source fs path = Inr source"
      and created: "rt_fails rt (trace w)
             (CreateProgram source (length source + 1) (Program (next_id w))) = None"
      and built: "rt_fails rt
             (trace w @ [CreateProgram source (length source + 1) (Program (next_id w))])
             (BuildProgram (Program (next_id w)) ''-D BLOCK_SIZE=2'') = None"
      and run: "AddTask rt fs path name off g l d args q w = (r, q', w')"
  shows "take 3 (new_calls w w')
         = [CreateProgram source (length source + 1) (Program (next_id w)),
            BuildProgram (Program (next_id w)) ''-D BLOCK_SIZE=2'',
            CreateKernel (Program (next_id w)) name (Kernel (Suc (next_id w)))]
       \<and> programs q' = (programs q)(path \<mapsto> Program (next_id w))
       \<and> (case rt_fails rt
                 (trace w @ [CreateProgram source (length source + 1) (Program (next_id w)),
                             BuildProgram (Program (next_id w)) ''-D BLOCK_SIZE=2''])
                 (CreateKernel (Program (next_id w)) name (Kernel (Suc (next_id w)))) of
             None \<Rightarrow>
               kernels q' = (kernels q)(kernel_id_str path name \<mapsto> Kernel (Suc (next_id w)))
           | Some e \<Rightarrow> r = Inl (ClError e) \<and> kernels q' = kernels q)"
proof -
  let ?cp = "CreateProgram source (length source + 1) (Program (next_id w))"
  let ?bp = "BuildProgram (Program (next_id w)) ''-D BLOCK_SIZE=2''"
  let ?ck = "CreateKernel (Program (next_id w)) name (Kernel (Suc (next_id w)))"
  let ?q1 = "q\<lparr>programs := (programs q)(path \<mapsto> Program (next_id w))\<rparr>"
  let ?w1 = "w\<lparr>trace := trace w @ [?cp, ?bp], next_id := Suc (next_id w)\<rparr>"
  note lp = load_program_built[OF nc src created built]
  have ck: "create_kernel rt path name True (Program (next_id w)) ?q1 ?w1
            = new_kernel rt path name (Program (next_id w)) ?q1 ?w1"
    by (simp add: create_kernel_def split: option.splits)
  show ?thesis
  proof (cases "rt_fails rt (trace w @ [?cp, ?bp]) ?ck")
    case (Some e)
    with run lp ck have "w' = ?w1\<lparr>trace := trace w @ [?cp, ?bp, ?ck]\<rparr>"
      and "q' = ?q1" and "r = Inl (ClError e)"
      by (auto simp: AddTask_def new_kernel_def Let_def rt_do_def)
    with Some show ?thesis by (simp add: new_calls_def)
  next
    case None
    let ?q2 = "?q1\<lparr>kernels := (kernels ?q1)(kernel_id_str path name \<mapsto> Kernel (Suc (next_id w)))\<rparr>"
    let ?w2 = "fresh (?w1\<lparr>trace := trace w @ [?cp, ?bp, ?ck]\<rparr>)"
    from run lp ck None have
      fq: "fill_queue rt (Kernel (Suc (next_id w))) off g l d args ?w2 = (r, w')" and q': "q' = ?q2"
      by (auto simp: AddTask_def new_kernel_def Let_def rt_do_def split: prod.splits)
    from fill_queue_calls[OF fq] obtain cs where "trace w' = trace ?w2 @ cs" by blast
    then have "new_calls w w' = [?cp, ?bp, ?ck] @ cs" by (simp add: new_calls_def fresh_def)
    with q' None show ?thesis by simp
  qed
qed

theorem AddTask_rebuilds_kernel_witness:
  "AddTask rt_ok no_files ''a; b'' ''c'' [0] [4] [2] (arg VAR 100) [arg LOCALE 0]
       empty_queue w_init
     = (Inr \<lparr>event' = Event 2, buffers' = [], out_val' = []\<rparr>, q_pair1, w_pair1)
   \<and> programs q_pair1 ''a'' = None
   \<and> read_source no_files ''a'' = Inr []
   \<and> kernels q_pair1 (kernel_id_str ''a'' ''b; c'') = Some (Kernel 1)
   \<and> AddTask rt_ok no_files ''a'' ''b; c'' [0] [4] [2] (arg VAR 100) [arg LOCALE 0]
       q_pair1 w_pair1
     = (Inr \<lparr>event' = Event 5, buffers' = [], out_val' = []\<rparr>, q_rebuilt, w_rebuilt)
   \<and> take 3 (new_calls w_pair1 w_rebuilt)
     = [CreateProgram [] 1 (Program 3),
        BuildProgram (Program 3) ''-D BLOCK_SIZE=2'',
        CreateKernel (Program 3) ''b; c'' (Kernel 4)]
   \<and> programs q_rebuilt = (programs q_pair1)(''a'' \<mapsto> Program 3)
   \<and> kernels q_rebuilt = (kernels q_pair1)(kernel_id_str ''a'' ''b; c'' \<mapsto> Kernel 4)
   \<and> AddTask rt_c_names no_files ''a'' ''b; c'' [0] [4] [2] (arg VAR 100) [arg LOCALE 0]
       q_pair1 w_pair1
     = (Inl (ClError (Error (- 46) ''clCreateKernel'')), q_stale, w_stale)
   \<and> take 3 (new_calls w_pair1 w_stale)
     = [CreateProgram [] 1 (Program 3),
        BuildProgram (Program 3) ''-D BLOCK_SIZE=2'',
        CreateKernel (Program 3) ''b; c'' (Kernel 4)]
   \<and> programs q_stale = (programs q_pair1)(''a'' \<mapsto> Program 3)
   \<and> kernels q_stale = kernels q_pair1"
proof -
  have nc: "programs q_pair1 ''a'' = None" by (simp add: q_pair1_def)
  have src: "read_source no_files ''a'' = Inr []" by (simp add: read_source_def no_files_def)
  have ok: "rt_fails rt_ok h c = None" for h c by (simp add: rt_ok_def)
  have ok1: "rt_fails rt_c_names (trace w_pair1)
      (CreateProgram [] (length ([] :: string) + 1) (Program (next_id w_pair1))) = None"
    by (simp add: rt_c_names_def)
  have ok2: "rt_fails rt_c_names
      (trace w_pair1 @ [CreateProgram [] (length ([] :: string) + 1) (Program (next_id w_pair1))])
      (BuildProgram (Program (next_id w_pair1)) ''-D BLOCK_SIZE=2'') = None"
    by (simp add: rt_c_names_def)
  from AddTask_rebuilds_kernel[OF nc src ok ok run_rebuilt]
    AddTask_rebuilds_kernel[OF nc src ok1 ok2 run_stale]
    nc src run_pair1 run_rebuilt run_stale
  show ?thesis
    by (simp add: ok rt_c_names_def w_pair1_def q_pair1_def kernel_id_str_def)
qed

text \<open>
  The entry is not always recreated. On the runtime that has no kernel with a semicolon in
  its name, after the first pair, the submission of the second pair compiles the program
  of its path and fails to create the kernel: the key keeps the handle of the first pair.
  The same submission made once more finds the program and the key cached and runs that
  handle.
\<close>

theorem AddTask_rebuilds_kernel_counterexample:
  "AddTask rt_c_names no_files ''a; b'' ''c'' [0] [4] [2] (arg VAR 100) [arg LOCALE 0]
       empty_queue w_init
     = (Inr \<lparr>event' = Event 2, buffers' = [], out_val' = []\<rparr>, q_pair1, w_pair1)
   \<and> programs q_pair1 ''a'' = None
   \<and> kernels q_pair1 (kernel_id_str ''a'' ''b; c'') = Some (Kernel 1)
   \<and> AddTask rt_c_names no_files ''a'' ''b; c'' [0] [4] [2] (arg VAR 100) [arg LOCALE 0]
       q_pair1 w_pair1
     = (Inl (ClError (Error (- 46) ''clCreateKernel'')), q_stale, w_stale)
   \<and> new_calls w_pair1 w_stale
     = [CreateProgram [] 1 (Program 3),
        BuildProgram (Program 3) ''-D BLOCK_SIZE=2'',
        CreateKernel (Program 3) ''b; c'' (Kernel 4)]
   \<and> rt_fails rt_c_names (trace w_pair1 @ [CreateProgram [] 1 (Program 3)])
        (BuildProgram (Program 3) ''-D BLOCK_SIZE=2'') = None
   \<and> programs q_stale ''a'' = Some (Program 3)
   \<and> kernels q_stale (kernel_id_str ''a'' ''b; c'') = Some (Kernel 1)
   \<and> AddTask rt_c_names no_files ''a'' ''b; c'' [0] [4] [2] (arg VAR 100) [arg LOCALE 0]
       q_stale w_stale
     = (Inr \<lparr>event' = Event 4, buffers' = [], out_val' = []\<rparr>, q_stale, w_reused)
   \<and> new_calls w_stale w_reused
     = [SetArg (Kernel 1) 0 (ArgDeref 100),
        SetArg (Kernel 1) 1 (ArgLocal 16),
        EnqueueNDRangeKernel (Kernel 1) [0] [4] [2] (Event 4)]"
  using run_pair1_strict run_stale run_reused
  by (simp add: rt_c_names_def q_pair1_def q_stale_def w_pair1_def w_stale_def w_reused_def
        new_calls_def kernel_id_str_def)

section \<open>The key of the kernel cache\<close>





section \<open>A failed build\<close>

text \<open>
  Claim C2, as the code has it. When the program of the path is not cached, its source is
  read, the runtime creates the program and the build fails, the kernel cache is left as it
  was and the program cache has gained the entry for the path, inserted before the build.
  The line \<open>Build log:\<close> is written to the output stream. When the build log can be
  read, the log is written after it and the error of the build is raised as the runtime
  gave it; when the query of the log fails, its error is raised and no log is written.
\<close>

theorem AddTask_failed_build:
  assumes nc: "programs q path = None"
      and src: "read_source fs path = Inr source"
      and created: "rt_fails rt (trace w)
             (CreateProgram source (length source + 1) (Program (next_id w))) = None"
      and build_fails: "rt_fails rt
             (trace w @ [CreateProgram source (length source + 1) (Program (next_id w))])
             (BuildProgram (Program (next_id w)) ''-D BLOCK_SIZE=2'') = Some e"
      and run: "AddTask rt fs path name off g l d args q w = (r, q', w')"
  shows "kernels q' = kernels q
       \<and> programs q' = (programs q)(path \<mapsto> Program (next_id w))
       \<and> (case rt_fails rt
                 (trace w @ [CreateProgram source (length source + 1) (Program (next_id w)),
                             BuildProgram (Program (next_id w)) ''-D BLOCK_SIZE=2''])
                 (GetBuildLog (Program (next_id w))) of
             None \<Rightarrow>
               r = Inl (ClError e) \<and>
               cout w' = cout w @ ''Build log:'' @ endl @
                 rt_build_log rt
                   (trace w @ [CreateProgram source (length source + 1) (Program (next_id w)),
                               BuildProgram (Program (next_id w)) ''-D BLOCK_SIZE=2''])
                   (Program (next_id w)) @ endl
           | Some e' \<Rightarrow>
               r = Inl (ClError e') \<and> cout w' = cout w @ ''Build log:'' @ endl)"
proof -
  note lp = load_program_build_fails[OF nc src created build_fails]
  obtain res q1 w1 where l: "load_program rt fs path q w = (res, q1, w1)"
    by (cases "load_program rt fs path q w") auto
  with lp obtain err where res: "res = Inl err" by (auto split: option.splits)
  from AddTask_load_fails[of rt fs path q w err q1 w1 name off g l d args] l res run
  have "r = Inl err" "q' = q1" "w' = w1" by simp_all
  with l res lp show ?thesis by (auto split: option.splits)
qed

theorem AddTask_failed_build_witness:
  "AddTask rt_build_fails fs_bad ''bad.cl'' ''f'' [0] [4] [2] (arg IN 100) [arg OUT 200]
       empty_queue w_init
     = (Inl (ClError (Error (- 11) ''clBuildProgram'')), q_bad, w_bad)
   \<and> programs empty_queue ''bad.cl'' = None
   \<and> read_source fs_bad ''bad.cl'' = Inr ''kernel void f( {''
   \<and> rt_fails rt_build_fails (trace w_init)
        (CreateProgram ''kernel void f( {'' 17 (Program 0)) = None
   \<and> rt_fails rt_build_fails [CreateProgram ''kernel void f( {'' 17 (Program 0)]
        (BuildProgram (Program 0) ''-D BLOCK_SIZE=2'') = Some (Error (- 11) ''clBuildProgram'')
   \<and> rt_fails rt_build_fails
        [CreateProgram ''kernel void f( {'' 17 (Program 0),
         BuildProgram (Program 0) ''-D BLOCK_SIZE=2'']
        (GetBuildLog (Program 0)) = None
   \<and> kernels q_bad = kernels empty_queue
   \<and> programs q_bad = (programs empty_queue)(''bad.cl'' \<mapsto> Program 0)
   \<and> cout w_bad = cout w_init @ ''Build log:'' @ endl @ ''error: expected expression'' @ endl
   \<and> AddTask rt_log_fails fs_bad ''bad.cl'' ''f'' [0] [4] [2] (arg IN 100) [arg OUT 200]
       empty_queue w_init
     = (Inl (ClError (Error (- 33) ''clGetProgramBuildInfo'')), q_bad, w_nolog)
   \<and> rt_fails rt_log_fails [CreateProgram ''kernel void f( {'' 17 (Program 0)]
        (BuildProgram (Program 0) ''-D BLOCK_SIZE=2'') = Some (Error (- 11) ''clBuildProgram'')
   \<and> rt_fails rt_log_fails
        [CreateProgram ''kernel void f( {'' 17 (Program 0),
         BuildProgram (Program 0) ''-D BLOCK_SIZE=2'']
        (GetBuildLog (Program 0)) = Some (Error (- 33) ''clGetProgramBuildInfo'')
   \<and> cout w_nolog = cout w_init @ ''Build log:'' @ endl"
proof -
  have nc: "programs empty_queue ''bad.cl'' = None" by (simp add: empty_queue_def)
  have src: "read_source fs_bad ''bad.cl'' = Inr ''kernel void f( {''"
    by (simp add: read_source_def fs_bad_def)
  have created: "rt_fails rt_build_fails (trace w_init)
      (CreateProgram ''kernel void f( {'' (length ''kernel void f( {'' + 1)
         (Program (next_id w_init))) = None"
    by (simp add: rt_build_fails_def)
  have build_fails: "rt_fails rt_build_fails
      (trace w_init @
       [CreateProgram ''kernel void f( {'' (length ''kernel void f( {'' + 1)
          (Program (next_id w_init))])
      (BuildProgram (Program (next_id w_init)) ''-D BLOCK_SIZE=2'')
      = Some (Error (- 11) ''clBuildProgram'')"
    by (simp add: rt_build_fails_def)
  have created': "rt_fails rt_log_fails (trace w_init)
      (CreateProgram ''kernel void f( {'' (length ''kernel void f( {'' + 1)
         (Program (next_id w_init))) = None"
    by (simp add: rt_log_fails_def)
  have build_fails': "rt_fails rt_log_fails
      (trace w_init @
       [CreateProgram ''kernel void f( {'' (length ''kernel void f( {'' + 1)
          (Program (next_id w_init))])
      (BuildProgram (Program (next_id w_init)) ''-D BLOCK_SIZE=2'')
      = Some (Error (- 11) ''clBuildProgram'')"
    by (simp add: rt_log_fails_def)
  from AddTask_failed_build[OF nc src created build_fails run_bad]
    AddTask_failed_build[OF nc src created' build_fails' run_nolog]
    nc src run_bad run_nolog
  show ?thesis
    by (simp add: rt_build_fails_def rt_log_fails_def w_init_def)
qed

text \<open>
  The program cache is not left as it was, and the error raised is the runtime's own: the
  text of the build log goes to the output stream only.
\<close>

theorem AddTask_failed_build_counterexample:
  "AddTask rt_build_fails fs_bad ''bad.cl'' ''f'' [0] [4] [2] (arg IN 100) [arg OUT 200]
       empty_queue w_init
     = (Inl (ClError (Error (- 11) ''clBuildProgram'')), q_bad, w_bad)
   \<and> programs empty_queue ''bad.cl'' = None
   \<and> programs q_bad ''bad.cl'' = Some (Program 0)
   \<and> programs q_bad \<noteq> programs empty_queue
   \<and> rt_build_log rt_build_fails
        [CreateProgram ''kernel void f( {'' 17 (Program 0),
         BuildProgram (Program 0) ''-D BLOCK_SIZE=2'']
        (Program 0) = ''error: expected expression''
   \<and> \<not> sublist ''error: expected expression'' ''clBuildProgram''"
proof -
  have "programs q_bad ''bad.cl'' \<noteq> programs empty_queue ''bad.cl''"
    by (simp add: q_bad_def empty_queue_def)
  then have "programs q_bad \<noteq> programs empty_queue" by metis
  moreover have "\<not> sublist ''error: expected expression'' ''clBuildProgram''"
  proof
    assume "sublist ''error: expected expression'' ''clBuildProgram''"
    then have "length ''error: expected expression'' \<le> length ''clBuildProgram''"
      by (rule sublist_length_le)
    then show False by simp
  qed
  ultimately show ?thesis
    using run_bad by (simp add: q_bad_def empty_queue_def rt_build_fails_def)
qed

section \<open>Which errors are handled\<close>

lemma AddTask_build_failed:
  assumes nc: "programs q path = None" and src: "read_source fs path = Inr source"
      and created: "rt_fails rt (trace w)
             (CreateProgram source (length source + 1) (Program (next_id w))) = None"
      and build_fails: "rt_fails rt
             (trace w @ [CreateProgram source (length source + 1) (Program (next_id w))])
             (BuildProgram (Program (next_id w)) ''-D BLOCK_SIZE=2'') = Some e"
      and run: "AddTask rt fs path name off g l d args q w = (r, q', w')"
  shows "build_failed rt fs path q w r w'"
proof -
  obtain res q1 w1 where lp: "load_program rt fs path q w = (res, q1, w1)"
    by (cases "load_program rt fs path q w") auto
  from build_failed_intro[OF nc src created build_fails lp] obtain err where
    "res = Inl err" "build_failed rt fs path q w (Inl err) w1" by blast
  with lp run AddTask_load_fails[of rt fs path q w err q1 w1 name off g l d args]
  show ?thesis by simp
qed

text \<open>
  Claim C7, as the code has it. A submission ends in one of three ways. Either no call on
  the runtime failed and nothing was written to the output stream, and then no error of
  the runtime is raised. Or exactly one call failed, it is the last call made, nothing was
  written, and the error raised is the error of that call as the runtime gave it: the
  failure was not caught, and nothing was called after it. Or the build of the program
  failed: then the calls are the creation of the program, the build and the query of the
  build log, the line \<open>Build log:\<close> is written, and either the log is written and the
  error of the build is raised, or the query of the log failed and its error is raised
  with no log written. A future is returned in the first case only. The third case is the
  outcome whenever the build fails.
\<close>

theorem AddTask_error_policy:
  assumes run: "AddTask rt fs path name off g l d args q w = (r, q', w')"
  shows "((clean rt w w' \<and> (case r of Inl (ClError e) \<Rightarrow> False | _ \<Rightarrow> True))
          \<or> (\<exists>e. stopped rt w w' e \<and> r = Inl (ClError e))
          \<or> build_failed rt fs path q w r w')
       \<and> (programs q path = None \<and> read_source fs path = Inr source \<and>
          rt_fails rt (trace w)
            (CreateProgram source (length source + 1) (Program (next_id w))) = None \<and>
          rt_fails rt
            (trace w @ [CreateProgram source (length source + 1) (Program (next_id w))])
            (BuildProgram (Program (next_id w)) ''-D BLOCK_SIZE=2'') \<noteq> None
          \<longrightarrow> build_failed rt fs path q w r w')"
  using AddTask_outcome[OF run] AddTask_build_failed[of q path fs source rt w _ name off g l d args r q' w'] run
  by auto

theorem AddTask_error_policy_witness:
  "AddTask rt_ok no_files ''k.cl'' ''f'' [0] [4] [2] (arg VAR 100) [arg LOCALE 0]
       empty_queue w_init
     = (Inr \<lparr>event' = Event 2, buffers' = [], out_val' = []\<rparr>, q_first, w_first)
   \<and> clean rt_ok w_init w_first
   \<and> AddTask rt_kernel_fails no_files ''missing.cl'' ''f'' [0] [4] [2] (arg IN 100)
       [arg OUT 200] empty_queue w_init
     = (Inl (ClError (Error (- 46) ''clCreateKernel'')), q_missing, w_missing)
   \<and> stopped rt_kernel_fails w_init w_missing (Error (- 46) ''clCreateKernel'')
   \<and> AddTask rt_build_fails fs_bad ''bad.cl'' ''f'' [0] [4] [2] (arg IN 100) [arg OUT 200]
       empty_queue w_init
     = (Inl (ClError (Error (- 11) ''clBuildProgram'')), q_bad, w_bad)
   \<and> programs empty_queue ''bad.cl'' = None
   \<and> read_source fs_bad ''bad.cl'' = Inr ''kernel void f( {''
   \<and> rt_fails rt_build_fails (trace w_init)
        (CreateProgram ''kernel void f( {'' 17 (Program 0)) = None
   \<and> rt_fails rt_build_fails [CreateProgram ''kernel void f( {'' 17 (Program 0)]
        (BuildProgram (Program 0) ''-D BLOCK_SIZE=2'') \<noteq> None
   \<and> build_failed rt_build_fails fs_bad ''bad.cl'' empty_queue w_init
        (Inl (ClError (Error (- 11) ''clBuildProgram''))) w_bad
   \<and> cout w_bad = ''Build log:'' @ endl @ ''error: expected expression'' @ endl
   \<and> AddTask rt_log_fails fs_bad ''bad.cl'' ''f'' [0] [4] [2] (arg IN 100) [arg OUT 200]
       empty_queue w_init
     = (Inl (ClError (Error (- 33) ''clGetProgramBuildInfo'')), q_bad, w_nolog)
   \<and> build_failed rt_log_fails fs_bad ''bad.cl'' empty_queue w_init
        (Inl (ClError (Error (- 33) ''clGetProgramBuildInfo''))) w_nolog
   \<and> cout w_nolog = ''Build log:'' @ endl"
proof -
  have c: "clean rt_ok w_init w_first"
    by (simp add: clean_def new_calls_def rt_ok_def w_init_def w_first_def)
  have s: "stopped rt_kernel_fails w_init w_missing (Error (- 46) ''clCreateKernel'')"
    by (simp add: stopped_def new_calls_def rt_kernel_fails_def w_init_def w_missing_def)
  have b: "programs empty_queue ''bad.cl'' = None \<and>
           read_source fs_bad ''bad.cl'' = Inr ''kernel void f( {'' \<and>
           rt_fails rt_build_fails (trace w_init)
             (CreateProgram ''kernel void f( {'' (length ''kernel void f( {'' + 1)
                (Program (next_id w_init))) = None \<and>
           rt_fails rt_build_fails
             (trace w_init @
              [CreateProgram ''kernel void f( {'' (length ''kernel void f( {'' + 1)
                 (Program (next_id w_init))])
             (BuildProgram (Program (next_id w_init)) ''-D BLOCK_SIZE=2'') \<noteq> None"
    by (simp add: empty_queue_def read_source_def fs_bad_def rt_build_fails_def)
  have b': "programs empty_queue ''bad.cl'' = None \<and>
           read_source fs_bad ''bad.cl'' = Inr ''kernel void f( {'' \<and>
           rt_fails rt_log_fails (trace w_init)
             (CreateProgram ''kernel void f( {'' (length ''kernel void f( {'' + 1)
                (Program (next_id w_init))) = None \<and>
           rt_fails rt_log_fails
             (trace w_init @
              [CreateProgram ''kernel void f( {'' (length ''kernel void f( {'' + 1)
                 (Program (next_id w_init))])
             (BuildProgram (Program (next_id w_init)) ''-D BLOCK_SIZE=2'') \<noteq> None"
    by (simp add: empty_queue_def read_source_def fs_bad_def rt_log_fails_def)
  from AddTask_error_policy[OF run_bad, of "''kernel void f( {''"] b
  have bf: "build_failed rt_build_fails fs_bad ''bad.cl'' empty_queue w_init
        (Inl (ClError (Error (- 11) ''clBuildProgram''))) w_bad" by blast
  from AddTask_error_policy[OF run_nolog, of "''kernel void f( {''"] b'
  have bf': "build_failed rt_log_fails fs_bad ''bad.cl'' empty_queue w_init
        (Inl (ClError (Error (- 33) ''clGetProgramBuildInfo''))) w_nolog" by blast
  from c s b bf bf' run_first run_missing run_bad run_nolog
  show ?thesis
    by (simp add: w_init_def w_bad_def w_nolog_def rt_build_fails_def)
qed

text \<open>
  The error of the build is not always the one raised, nor the log always written: when
  the query of the build log fails too, its error is raised and the output stream holds
  the line \<open>Build log:\<close> only.
\<close>

theorem AddTask_error_policy_counterexample:
  "AddTask rt_log_fails fs_bad ''bad.cl'' ''f'' [0] [4] [2] (arg IN 100) [arg OUT 200]
       empty_queue w_init
     = (Inl (ClError (Error (- 33) ''clGetProgramBuildInfo'')), q_bad, w_nolog)
   \<and> rt_fails rt_log_fails [CreateProgram ''kernel void f( {'' 17 (Program 0)]
        (BuildProgram (Program 0) ''-D BLOCK_SIZE=2'') = Some (Error (- 11) ''clBuildProgram'')
   \<and> Error (- 33) ''clGetProgramBuildInfo'' \<noteq> Error (- 11) ''clBuildProgram''
   \<and> trace w_nolog
     = [CreateProgram ''kernel void f( {'' 17 (Program 0),
        BuildProgram (Program 0) ''-D BLOCK_SIZE=2'',
        GetBuildLog (Program 0)]
   \<and> rt_build_log rt_log_fails
        [CreateProgram ''kernel void f( {'' 17 (Program 0),
         BuildProgram (Program 0) ''-D BLOCK_SIZE=2'']
        (Program 0) = ''error: expected expression''
   \<and> cout w_nolog = ''Build log:'' @ endl"
  using run_nolog by (simp add: rt_log_fails_def w_nolog_def)

section \<open>A path that names no readable file\<close>





lemma clean_new_calls: "clean rt w w' \<Longrightarrow> trace w' = trace w @ new_calls w w'"
  by (auto simp: clean_def new_calls_def prefix_def)






section \<open>Binding by position\<close>

lemma bindings_from_closed:
  "bindings_from k i n ds =
     concat (map (\<lambda>j. spec_binding k (i + j) (n + length (filter has_buffer (take j ds))) (ds ! j))
               [0..<length ds])"
proof (induction ds arbitrary: i n)
  case Nil
  then show ?case by simp
next
  case (Cons d ds)
  have "[0..<length (d # ds)] = 0 # map Suc [0..<length ds]"
    by (simp add: upt_conv_Cons map_Suc_upt del: upt_Suc)
  then show ?case
    by (simp add: Cons.IH o_def del: upt_Suc)
qed

lemma bindings_from_spec: "bindings_from k 0 n ds = spec_bindings k n ds"
  by (simp add: bindings_from_closed spec_bindings_def)

lemma binding_call_spec_binding: "list_all binding_call (spec_binding k i n d)"
  by (cases "io_type d") (simp_all add: spec_binding_def)

lemma binding_call_bindings_from: "list_all binding_call (bindings_from k i n ds)"
  by (induction ds arbitrary: i n) (simp_all add: binding_call_spec_binding)

lemma bind_buffer_spec:
  assumes "bind_buffer rt i k bufs fl sz h w = (r, bufs', w')"
  shows "\<exists>cs. trace w' = trace w @ cs
           \<and> prefix cs [CreateBuffer fl sz h (Buffer (next_id w)),
                        SetArg k i (ArgBuffer (Buffer (next_id w)))]
           \<and> (r = None \<longrightarrow> cs = [CreateBuffer fl sz h (Buffer (next_id w)),
                                  SetArg k i (ArgBuffer (Buffer (next_id w)))]
                \<and> next_id w' = Suc (next_id w))"
  using assms
  by (auto simp: bind_buffer_def Let_def rt_do_def fresh_def split: option.splits)

lemma SetKernelArgs1_spec:
  assumes "SetKernelArgs1 rt i k bufs d w = (r, bufs', w')"
  shows "\<exists>cs. trace w' = trace w @ cs
           \<and> prefix cs (spec_binding k i (next_id w) d)
           \<and> (r = None \<longrightarrow> cs = spec_binding k i (next_id w) d
                \<and> next_id w' = (if has_buffer d then Suc (next_id w) else next_id w))"
proof (cases "io_type d")
  case IN
  with assms bind_buffer_spec show ?thesis
    by (simp add: SetKernelArgs1_def spec_binding_def has_buffer_def)
next
  case OUT
  with assms bind_buffer_spec show ?thesis
    by (simp add: SetKernelArgs1_def spec_binding_def has_buffer_def)
next
  case IN_OUT
  with assms bind_buffer_spec show ?thesis
    by (simp add: SetKernelArgs1_def spec_binding_def has_buffer_def)
next
  case LOCALE
  with assms show ?thesis
    by (auto simp: SetKernelArgs1_def spec_binding_def has_buffer_def rt_do_def
          split: option.splits)
next
  case VAR
  with assms show ?thesis
    by (auto simp: SetKernelArgs1_def spec_binding_def has_buffer_def rt_do_def
          split: option.splits)
qed

lemma SetKernelArgs_spec:
  "SetKernelArgs rt i k bufs d args w = (r, bufs', w') \<Longrightarrow>
     \<exists>cs. trace w' = trace w @ cs
        \<and> prefix cs (bindings_from k i (next_id w) (d # args))
        \<and> (r = None \<longrightarrow> cs = bindings_from k i (next_id w) (d # args))"
proof (induction args arbitrary: i bufs d w)
  case Nil
  from SetKernelArgs1_spec[of rt i k bufs d w r bufs' w'] Nil show ?case by auto
next
  case (Cons a args)
  obtain r1 b1 w1 where s1: "SetKernelArgs1 rt i k bufs d w = (r1, b1, w1)"
    by (cases "SetKernelArgs1 rt i k bufs d w") auto
  from SetKernelArgs1_spec[OF s1] obtain cs1 where
    c1: "trace w1 = trace w @ cs1" "prefix cs1 (spec_binding k i (next_id w) d)"
    and ok1: "r1 = None \<longrightarrow> cs1 = spec_binding k i (next_id w) d
                \<and> next_id w1 = (if has_buffer d then Suc (next_id w) else next_id w)"
    by blast
  show ?case
  proof (cases r1)
    case (Some e)
    with Cons.prems s1 have "w' = w1" "r = Some e" by simp_all
    with c1 show ?thesis by (auto intro: prefix_prefix)
  next
    case None
    with Cons.prems s1 have "SetKernelArgs rt (Suc i) k b1 a args w1 = (r, bufs', w')" by simp
    from Cons.IH[OF this] obtain cs2 where
      c2: "trace w' = trace w1 @ cs2" "prefix cs2 (bindings_from k (Suc i) (next_id w1) (a # args))"
      and ok2: "r = None \<longrightarrow> cs2 = bindings_from k (Suc i) (next_id w1) (a # args)"
      by blast
    from None ok1 have e1: "cs1 = spec_binding k i (next_id w) d"
      and n1: "next_id w1 = (if has_buffer d then Suc (next_id w) else next_id w)" by simp_all
    have "trace w' = trace w @ (cs1 @ cs2)" using c1 c2 by simp
    moreover have "prefix (cs1 @ cs2) (bindings_from k i (next_id w) (d # a # args))"
      using c2(2) e1 n1 by simp
    moreover have "r = None \<longrightarrow> cs1 @ cs2 = bindings_from k i (next_id w) (d # a # args)"
      using ok2 e1 n1 by simp
    ultimately show ?thesis by blast
  qed
qed

lemma GetResults1_no_binding:
  assumes "GetResults1 rt i bufs ev d w = (r, ev', w')"
  shows "\<exists>cs. trace w' = trace w @ cs \<and> filter binding_call cs = []"
  using assms
  by (auto simp: GetResults1_def Let_def rt_do_def fresh_def split: if_splits option.splits)

lemma GetResults_no_binding:
  "GetResults rt i bufs ev d args w = (r, ev', w') \<Longrightarrow>
     \<exists>cs. trace w' = trace w @ cs \<and> filter binding_call cs = []"
proof (induction args arbitrary: i ev d w)
  case Nil
  then show ?case by (simp add: GetResults1_no_binding)
next
  case (Cons a args)
  obtain r1 e1 w1 where s1: "GetResults1 rt i bufs ev d w = (r1, e1, w1)"
    by (cases "GetResults1 rt i bufs ev d w") auto
  from GetResults1_no_binding[OF s1] obtain cs1 where
    c1: "trace w1 = trace w @ cs1" "filter binding_call cs1 = []" by blast
  show ?case
  proof (cases r1)
    case None
    with Cons.prems s1 have "GetResults rt (Suc i) bufs e1 a args w1 = (r, ev', w')" by simp
    from Cons.IH[OF this] obtain cs2 where
      "trace w' = trace w1 @ cs2" "filter binding_call cs2 = []" by blast
    with c1 have "trace w' = trace w @ (cs1 @ cs2) \<and> filter binding_call (cs1 @ cs2) = []"
      by simp
    then show ?thesis by blast
  next
    case (Some e)
    with Cons.prems s1 have "w' = w1" by simp
    with c1 show ?thesis by auto
  qed
qed

lemma fill_queue_bindings:
  assumes "fill_queue rt k off g l d args w = (r, w')"
  shows "prefix (filter binding_call (new_calls w w')) (spec_bindings k (next_id w) (d # args))
       \<and> (\<forall>fut. r = Inr fut \<longrightarrow>
            filter binding_call (new_calls w w') = spec_bindings k (next_id w) (d # args))"
proof -
  let ?B = "bindings_from k 0 (next_id w) (d # args)"
  obtain r1 b1 w1 where s1: "SetKernelArgs rt 0 k [] d args w = (r1, b1, w1)"
    by (cases "SetKernelArgs rt 0 k [] d args w") auto
  from SetKernelArgs_spec[OF s1] obtain cs1 where
    c1: "trace w1 = trace w @ cs1" "prefix cs1 ?B" and ok1: "r1 = None \<longrightarrow> cs1 = ?B"
    by blast
  from c1(2) have "set cs1 \<subseteq> set ?B" by (rule set_mono_prefix)
  with binding_call_bindings_from[of k 0 "next_id w" "d # args"]
  have f1: "filter binding_call cs1 = cs1"
    by (auto simp: list_all_iff filter_id_conv)
  have "prefix (filter binding_call (new_calls w w')) ?B
       \<and> (\<forall>fut. r = Inr fut \<longrightarrow> filter binding_call (new_calls w w') = ?B)"
  proof (cases r1)
    case (Some e)
    with assms s1 have "w' = w1" "r = Inl e" by (simp_all add: fill_queue_def)
    with c1 f1 show ?thesis by (simp add: new_calls_def)
  next
    case None
    with ok1 have e1: "cs1 = ?B" by simp
    let ?c = "EnqueueNDRangeKernel k off g l (Event (next_id w1))"
    let ?w2 = "w1\<lparr>trace := trace w1 @ [?c]\<rparr>"
    show ?thesis
    proof (cases "rt_fails rt (trace w1) ?c")
      case (Some e)
      with assms s1 None have "w' = ?w2" "r = Inl (ClError e)"
        by (simp_all add: fill_queue_def rt_do_def)
      with c1 f1 show ?thesis by (simp add: new_calls_def)
    next
      case n2: None
      obtain r3 e3 w3 where s3: "GetResults rt 0 b1 (Event (next_id w1)) d args (fresh ?w2) = (r3, e3, w3)"
        by (cases "GetResults rt 0 b1 (Event (next_id w1)) d args (fresh ?w2)") auto
      from GetResults_no_binding[OF s3] obtain cs3 where
        c3: "trace w3 = trace (fresh ?w2) @ cs3" "filter binding_call cs3 = []" by blast
      from assms s1 None n2 s3 have "w' = w3"
        by (auto simp: fill_queue_def rt_do_def split: option.splits)
      with c1 c3 have "new_calls w w' = cs1 @ [?c] @ cs3" by (simp add: new_calls_def fresh_def)
      with c3 f1 e1 show ?thesis by simp
    qed
  qed
  then show ?thesis unfolding bindings_from_spec by blast
qed

lemma load_program_no_binding:
  assumes "load_program rt fs path q w = (res, q1, w1)"
  shows "\<exists>cs. trace w1 = trace w @ cs \<and> filter binding_call cs = []"
  using assms
  by (auto simp: load_program_def Let_def rt_do_def fresh_def split: option.splits sum.splits)

lemma create_kernel_no_binding:
  assumes "create_kernel rt path name flag p q w = (res, q2, w2)"
  shows "(\<exists>cs. trace w2 = trace w @ cs \<and> filter binding_call cs = [])
       \<and> (\<forall>k. res = Inr k \<longrightarrow> kernels q2 (kernel_id_str path name) = Some k)"
  using assms
  by (auto simp: create_kernel_def new_kernel_def Let_def rt_do_def fresh_def
        split: option.splits if_splits)

text \<open>
  Claim C6. In every submission the calls that bind arguments and allocate their buffers
  are, in order, those the specification lists for the argument list: the descriptor at
  position \<open>i\<close> is bound at index \<open>i\<close> of the kernel cached for the submission, and its
  direction tag alone decides the binding. \<open>IN\<close> and \<open>IN_OUT\<close> allocate a buffer with
  \<open>CL_MEM_COPY_HOST_PTR\<close> and the host pointer and bind it, \<open>OUT\<close> allocates a buffer with
  no host pointer and binds it, \<open>LOCALE\<close> binds local memory of the descriptor's size and
  \<open>VAR\<close> binds the scalar behind the host pointer, both with no buffer. A submission that
  fails has made a prefix of these calls; one that returns a future has made all of them.
\<close>

theorem AddTask_binds_by_position:
  assumes run: "AddTask rt fs path name off g l clData args q w = (r, q', w')"
  shows "\<exists>k n. prefix (filter binding_call (new_calls w w')) (spec_bindings k n (clData # args))
           \<and> (\<forall>fut. r = Inr fut \<longrightarrow>
                 filter binding_call (new_calls w w') = spec_bindings k n (clData # args)
                 \<and> kernels q' (kernel_id_str path name) = Some k)"
proof -
  obtain res q1 w1 where lp: "load_program rt fs path q w = (res, q1, w1)"
    by (cases "load_program rt fs path q w") auto
  from load_program_no_binding[OF lp] obtain cs1 where
    c1: "trace w1 = trace w @ cs1" "filter binding_call cs1 = []" by blast
  show ?thesis
  proof (cases res)
    case (Inl err)
    with run lp have "w' = w1" "r = Inl err" by (simp_all add: AddTask_def)
    with c1 show ?thesis by (simp add: new_calls_def)
  next
    case (Inr x)
    obtain res2 q2 w2 where ck: "create_kernel rt path name (fst x) (snd x) q1 w1 = (res2, q2, w2)"
      by (cases "create_kernel rt path name (fst x) (snd x) q1 w1") auto
    from create_kernel_no_binding[OF ck] obtain cs2 where
      c2: "trace w2 = trace w1 @ cs2" "filter binding_call cs2 = []"
      and k2: "\<forall>k. res2 = Inr k \<longrightarrow> kernels q2 (kernel_id_str path name) = Some k"
      by blast
    show ?thesis
    proof (cases res2)
      case (Inl err)
      with run lp Inr ck have "w' = w2" "r = Inl err"
        by (auto simp: AddTask_def split: prod.splits)
      with c1 c2 show ?thesis by (simp add: new_calls_def)
    next
      case k: (Inr k)
      obtain r3 w3 where fq: "fill_queue rt k off g l clData args w2 = (r3, w3)"
        by (cases "fill_queue rt k off g l clData args w2") auto
      from run lp Inr ck k fq have e: "q' = q2" "w' = w3" "r = r3"
        by (auto simp: AddTask_def split: prod.splits)
      from fill_queue_calls[OF fq] obtain cs3 where c3: "trace w3 = trace w2 @ cs3" by blast
      with c1 c2 e have "filter binding_call (new_calls w w') = filter binding_call (new_calls w2 w3)"
        by (simp add: new_calls_def)
      with fill_queue_bindings[OF fq] k2 k e show ?thesis by auto
    qed
  qed
qed

theorem AddTask_binds_by_position_witness:
  "AddTask rt_ok no_files ''k.cl'' ''f'' [0] [4] [2]
      (arg IN 100) [arg OUT 200, arg IN_OUT 300, arg VAR 400, arg LOCALE 0] empty_queue w_init
    = (Inr \<lparr>event' = Event 7, buffers' = [Buffer 2, Buffer 3, Buffer 4],
             out_val' = [arg OUT 200, arg IN_OUT 300]\<rparr>,
       \<lparr>programs = [''k.cl'' \<mapsto> Program 0], kernels = [''k.cl; f'' \<mapsto> Kernel 1]\<rparr>,
       \<lparr>trace =
          [CreateProgram [] 1 (Program 0),
           BuildProgram (Program 0) ''-D BLOCK_SIZE=2'',
           CreateKernel (Program 0) ''f'' (Kernel 1),
           CreateBuffer [CL_MEM_READ_ONLY, CL_MEM_COPY_HOST_PTR] 16 (Some 100) (Buffer 2),
           SetArg (Kernel 1) 0 (ArgBuffer (Buffer 2)),
           CreateBuffer [CL_MEM_WRITE_ONLY] 16 None (Buffer 3),
           SetArg (Kernel 1) 1 (ArgBuffer (Buffer 3)),
           CreateBuffer [CL_MEM_READ_WRITE, CL_MEM_COPY_HOST_PTR] 16 (Some 300) (Buffer 4),
           SetArg (Kernel 1) 2 (ArgBuffer (Buffer 4)),
           SetArg (Kernel 1) 3 (ArgDeref 400),
           SetArg (Kernel 1) 4 (ArgLocal 16),
           EnqueueNDRangeKernel (Kernel 1) [0] [4] [2] (Event 5),
           EnqueueReadBuffer (Buffer 3) False 0 16 200 (Event 6),
           EnqueueReadBuffer (Buffer 4) False 0 16 300 (Event 7)],
        cout = [], next_id = 8\<rparr>)
   \<and> spec_bindings (Kernel 1) 2
        [arg IN 100, arg OUT 200, arg IN_OUT 300, arg VAR 400, arg LOCALE 0]
     = [CreateBuffer [CL_MEM_READ_ONLY, CL_MEM_COPY_HOST_PTR] 16 (Some 100) (Buffer 2),
        SetArg (Kernel 1) 0 (ArgBuffer (Buffer 2)),
        CreateBuffer [CL_MEM_WRITE_ONLY] 16 None (Buffer 3),
        SetArg (Kernel 1) 1 (ArgBuffer (Buffer 3)),
        CreateBuffer [CL_MEM_READ_WRITE, CL_MEM_COPY_HOST_PTR] 16 (Some 300) (Buffer 4),
        SetArg (Kernel 1) 2 (ArgBuffer (Buffer 4)),
        SetArg (Kernel 1) 3 (ArgDeref 400),
        SetArg (Kernel 1) 4 (ArgLocal 16)]
   \<and> filter binding_call
        (new_calls w_init
           (snd (snd (AddTask rt_ok no_files ''k.cl'' ''f'' [0] [4] [2] (arg IN 100)
                        [arg OUT 200, arg IN_OUT 300, arg VAR 400, arg LOCALE 0]
                        empty_queue w_init))))
     = spec_bindings (Kernel 1) 2
         [arg IN 100, arg OUT 200, arg IN_OUT 300, arg VAR 400, arg LOCALE 0]
   \<and> kernels (fst (snd (AddTask rt_ok no_files ''k.cl'' ''f'' [0] [4] [2] (arg IN 100)
                          [arg OUT 200, arg IN_OUT 300, arg VAR 400, arg LOCALE 0]
                          empty_queue w_init)))
        (kernel_id_str ''k.cl'' ''f'')
     = Some (Kernel 1)"
proof -
  have "[0..<5] = [0, 1, 2, 3, 4::nat]" by (simp add: upt_rec)
  then have "spec_bindings (Kernel 1) 2
        [arg IN 100, arg OUT 200, arg IN_OUT 300, arg VAR 400, arg LOCALE 0]
     = [CreateBuffer [CL_MEM_READ_ONLY, CL_MEM_COPY_HOST_PTR] 16 (Some 100) (Buffer 2),
        SetArg (Kernel 1) 0 (ArgBuffer (Buffer 2)),
        CreateBuffer [CL_MEM_WRITE_ONLY] 16 None (Buffer 3),
        SetArg (Kernel 1) 1 (ArgBuffer (Buffer 3)),
        CreateBuffer [CL_MEM_READ_WRITE, CL_MEM_COPY_HOST_PTR] 16 (Some 300) (Buffer 4),
        SetArg (Kernel 1) 2 (ArgBuffer (Buffer 4)),
        SetArg (Kernel 1) 3 (ArgDeref 400),
        SetArg (Kernel 1) 4 (ArgLocal 16)]"
    by (simp add: spec_bindings_def spec_binding_def has_buffer_def arg_def)
  with AddTask_binds_by_position[OF run_mixed] run_mixed show ?thesis
    by (simp add: new_calls_def w_init_def kernel_id_str_def)
qed

section \<open>The buffer a read-back reads\<close>

text \<open>
  Claim C1 does not hold of the code. \<open>SetKernelArgs\<close> appends a buffer for the \<open>IN\<close>,
  \<open>IN_OUT\<close> and \<open>OUT\<close> descriptors only, while \<open>GetResults\<close> reads \<open>buffers[argIndex]\<close> at
  the position of the descriptor in the argument list. After a \<open>VAR\<close> (or \<open>LOCALE\<close>)
  descriptor the two differ. For the arguments \<open>VAR\<close>, \<open>OUT\<close>, \<open>IN\<close> the buffers are
  \<open>Buffer 2\<close>, bound at index 1 for the \<open>OUT\<close> descriptor, and \<open>Buffer 3\<close>, bound at index 2
  for the \<open>IN\<close> descriptor; the read-back into the host memory of the \<open>OUT\<close> descriptor
  (address 200) is enqueued from \<open>Buffer 3\<close>. For the arguments \<open>VAR\<close>, \<open>OUT\<close> the index 1
  is past the end of the one-element vector.
\<close>

theorem GetResults_reads_by_position:
  "AddTask rt_ok no_files ''k.cl'' ''f'' [0] [4] [2]
      (arg VAR 100) [arg OUT 200, arg IN 300] empty_queue w_init
    = (Inr \<lparr>event' = Event 5, buffers' = [Buffer 2, Buffer 3], out_val' = [arg OUT 200]\<rparr>,
       \<lparr>programs = [''k.cl'' \<mapsto> Program 0], kernels = [''k.cl; f'' \<mapsto> Kernel 1]\<rparr>,
       \<lparr>trace =
          [CreateProgram [] 1 (Program 0),
           BuildProgram (Program 0) ''-D BLOCK_SIZE=2'',
           CreateKernel (Program 0) ''f'' (Kernel 1),
           SetArg (Kernel 1) 0 (ArgDeref 100),
           CreateBuffer [CL_MEM_WRITE_ONLY] 16 None (Buffer 2),
           SetArg (Kernel 1) 1 (ArgBuffer (Buffer 2)),
           CreateBuffer [CL_MEM_READ_ONLY, CL_MEM_COPY_HOST_PTR] 16 (Some 300) (Buffer 3),
           SetArg (Kernel 1) 2 (ArgBuffer (Buffer 3)),
           EnqueueNDRangeKernel (Kernel 1) [0] [4] [2] (Event 4),
           EnqueueReadBuffer (Buffer 3) False 0 16 200 (Event 5)],
        cout = [], next_id = 6\<rparr>)
   \<and> fst (AddTask rt_ok no_files ''k.cl'' ''f'' [0] [4] [2]
            (arg VAR 100) [arg OUT 200] empty_queue w_init)
     = Inl VectorOutOfRange"
  by (simp add: model_defs input_defs)

end
